theory Spec2Isabelle
  imports Main "HOL-Library.AList"
begin

section \<open>Errors\<close>

text \<open>
  The Python exceptions raised by the storage engine, one constructor per raise site
  that the model distinguishes. Every operation that can raise returns a sum, with
  \<open>Inl\<close> for the exception.
  \<^item> \<open>KeyError\<close>: a missing dictionary key, or \<open>KeyError("Key ... not found")\<close> of the
    key/value table.
  \<^item> \<open>TypeError\<close>: a call that does not match the callee's parameters.
  \<^item> \<open>AttributeError\<close>: a method that the receiver does not have.
  \<^item> \<open>ValueError_no_such_call\<close>: \<open>ValueError("Call with history_id ... does not exist")\<close>.
  \<^item> \<open>ValueError_side_effects\<close>: \<open>ValueError("Function ... has side effects on inputs
    ...; aborting call.")\<close>, with the changed input names.
  \<^item> \<open>IndexError\<close>: a list index out of range.
  \<^item> \<open>AssertionError\<close>: a failed \<open>assert\<close>.
  \<^item> \<open>NotImplementedError\<close>: the \<open>raise NotImplementedError\<close> of a dispatch on types.
  \<^item> \<open>NotImplementedError_in_context\<close>:
    \<open>NotImplementedError("Method not supported while in a context.")\<close>.
  \<^item> \<open>OutOfFuel\<close>: the recursion bound of the model was reached (Python would keep
    recursing).
\<close>

datatype error =
    KeyError
  | TypeError
  | AttributeError
  | ValueError_no_such_call
  | ValueError_side_effects "string list"
  | IndexError
  | AssertionError
  | NotImplementedError
  | NotImplementedError_in_context
  | OutOfFuel

text \<open>The names the specification's error taxonomy gives to two of them.\<close>

definition NotAllowedInContext :: error where
  "NotAllowedInContext = NotImplementedError_in_context"

definition SideEffectDetected :: "string list \<Rightarrow> error" where
  "SideEffectDetected changed = ValueError_side_effects changed"

text \<open>
  The outcome of an operation that returns its result together with the storage:
  the exception it raised, or the value it returned.
\<close>

definition raised :: "(error + 'a) \<times> 's \<Rightarrow> error option" where
  "raised r = (case fst r of Inl e \<Rightarrow> Some e | Inr x \<Rightarrow> None)"

definition returned :: "(error + 'a) \<times> 's \<Rightarrow> 'a option" where
  "returned r = (case fst r of Inl e \<Rightarrow> None | Inr x \<Rightarrow> Some x)"

section \<open>The key/value table (\<open>SQLiteDictStorage\<close>)\<close>

text \<open>
  A table \<open>(key TEXT PRIMARY KEY, value BLOB)\<close> is the list of its rows. The BLOB column
  holds \<open>serialize(value)\<close> and every read applies \<open>deserialize\<close>; the rows of the model
  hold the value itself. \<open>sess.d()\<close> in \<open>set\<close> is a debugging hook of \<open>common_imports\<close>
  and does not touch the table.
\<close>

type_synonym ('k, 'v) table = "('k \<times> 'v) list"

text \<open>
  A connection is a handle on the database; the statements of a method act on the
  table whichever connection carries them.
\<close>

datatype connection = Connection nat

text \<open>
  How a caller passes \<open>conn\<close> to a method wrapped by \<open>transaction\<close>: not at all, or as the
  keyword argument \<open>conn=...\<close>, whose value may be \<open>None\<close>.
\<close>

datatype conn_argument = NoConn | ConnKeyword "connection option"

text \<open>
  The \<open>transaction\<close> wrapper. With a connection in \<open>kwargs\<close> the method runs in the
  caller's transaction. Otherwise the wrapper opens a connection and calls
  \<open>method(self, *args, conn=conn, **kwargs)\<close>: the method runs and is committed, or rolled
  back when it raises. If the caller wrote \<open>conn=None\<close>, \<open>kwargs\<close> holds \<open>conn\<close> as well and
  that call passes the keyword twice, a \<open>TypeError\<close> before the method runs.
\<close>

definition transaction ::
  "('t \<Rightarrow> (error + 'a) \<times> 't) \<Rightarrow> conn_argument \<Rightarrow> 't \<Rightarrow> (error + 'a) \<times> 't" where
  "transaction method arg t =
     (case arg of
        ConnKeyword (Some c) \<Rightarrow> method t
      | ConnKeyword None \<Rightarrow> (Inl TypeError, t)
      | NoConn \<Rightarrow> (case method t of (Inl e, t') \<Rightarrow> (Inl e, t) | (Inr x, t') \<Rightarrow> (Inr x, t')))"

text \<open>
  \<open>set\<close> is called by \<open>CachedDictStorage.commit\<close> with \<open>conn=conn\<close> and takes the argument.
  The other methods are called without \<open>conn\<close> wherever the engine uses them, so that
  the wrapper opens the connection: they are given by what their statement does to
  the table.
\<close>

definition SQLiteDictStorage_get :: "('k, 'v) table \<Rightarrow> 'k \<Rightarrow> error + 'v" where
  "SQLiteDictStorage_get t key =
     (case map_of t key of None \<Rightarrow> Inl KeyError | Some v \<Rightarrow> Inr v)"

definition SQLiteDictStorage_set ::
  "('k, 'v) table \<Rightarrow> 'k \<Rightarrow> 'v \<Rightarrow> conn_argument \<Rightarrow> (error + unit) \<times> ('k, 'v) table" where
  "SQLiteDictStorage_set t key v arg =
     transaction (\<lambda>t. (Inr (), AList.update key v t)) arg t"

definition SQLiteDictStorage_drop :: "('k, 'v) table \<Rightarrow> 'k \<Rightarrow> ('k, 'v) table" where
  "SQLiteDictStorage_drop t key = AList.delete key t"

definition SQLiteDictStorage_exists :: "('k, 'v) table \<Rightarrow> 'k \<Rightarrow> bool" where
  "SQLiteDictStorage_exists t key = (0 < length (filter (\<lambda>row. fst row = key) t))"

definition SQLiteDictStorage_keys :: "('k, 'v) table \<Rightarrow> 'k list" where
  "SQLiteDictStorage_keys t = map fst t"

definition SQLiteDictStorage_values :: "('k, 'v) table \<Rightarrow> 'v list" where
  "SQLiteDictStorage_values t = map snd t"

definition SQLiteDictStorage_load_all :: "('k, 'v) table \<Rightarrow> ('k \<rightharpoonup> 'v)" where
  "SQLiteDictStorage_load_all t = map_of t"

section \<open>The write-through cache (\<open>CachedDictStorage\<close>)\<close>

text \<open>
  \<open>cache\<close> is the Python dict, \<open>dirty_keys\<close> the Python set, kept as the list of its
  elements in iteration order (\<open>add\<close> is \<open>List.insert\<close>, \<open>remove\<close> is \<open>removeAll\<close>).
  An operation returns its outcome together with the state it leaves behind, also when
  it raises.
\<close>

record ('k, 'v) CachedDictStorage =
  persistent :: "('k, 'v) table"
  cache :: "'k \<rightharpoonup> 'v"
  dirty_keys :: "'k list"

definition CachedDictStorage_init :: "('k, 'v) table \<Rightarrow> ('k, 'v) CachedDictStorage" where
  "CachedDictStorage_init p = \<lparr>persistent = p, cache = Map.empty, dirty_keys = []\<rparr>"

definition CachedDictStorage_get ::
  "('k, 'v) CachedDictStorage \<Rightarrow> 'k \<Rightarrow> (error + 'v) \<times> ('k, 'v) CachedDictStorage" where
  "CachedDictStorage_get s key =
     (case cache s key of
        Some v \<Rightarrow> (Inr v, s)
      | None \<Rightarrow>
         (case SQLiteDictStorage_get (persistent s) key of
            Inl e \<Rightarrow> (Inl e, s)
          | Inr v \<Rightarrow> (Inr v, s\<lparr>cache := (cache s)(key \<mapsto> v)\<rparr>)))"

definition CachedDictStorage_set ::
  "('k, 'v) CachedDictStorage \<Rightarrow> 'k \<Rightarrow> 'v \<Rightarrow> ('k, 'v) CachedDictStorage" where
  "CachedDictStorage_set s key v =
     s\<lparr>cache := (cache s)(key \<mapsto> v), dirty_keys := List.insert key (dirty_keys s)\<rparr>"

text \<open>
  The loop of \<open>commit\<close>: \<open>self.persistent.set(key, self.cache[key], conn=conn)\<close> for each
  dirty key. \<open>self.cache[key]\<close> raises \<open>KeyError\<close> for a key the cache does not hold, and
  \<open>set\<close> raises when \<open>conn\<close> is \<open>None\<close>; either leaves the loop with the rows written so
  far, and the dirty set as it was.
\<close>

fun commit_loop ::
  "'k list \<Rightarrow> ('k \<rightharpoonup> 'v) \<Rightarrow> connection option \<Rightarrow> ('k, 'v) table
     \<Rightarrow> (error + unit) \<times> ('k, 'v) table" where
  "commit_loop [] c conn t = (Inr (), t)"
| "commit_loop (key # ks) c conn t =
     (case c key of
        None \<Rightarrow> (Inl KeyError, t)
      | Some v \<Rightarrow>
          (case SQLiteDictStorage_set t key v (ConnKeyword conn) of
             (Inl e, t') \<Rightarrow> (Inl e, t')
           | (Inr u, t') \<Rightarrow> commit_loop ks c conn t'))"

definition CachedDictStorage_commit ::
  "('k, 'v) CachedDictStorage \<Rightarrow> connection option
     \<Rightarrow> (error + unit) \<times> ('k, 'v) CachedDictStorage" where
  "CachedDictStorage_commit s conn =
     (case commit_loop (dirty_keys s) (cache s) conn (persistent s) of
        (Inl e, t) \<Rightarrow> (Inl e, s\<lparr>persistent := t\<rparr>)
      | (Inr u, t) \<Rightarrow> (Inr (), s\<lparr>persistent := t, dirty_keys := []\<rparr>))"

definition CachedDictStorage_clear :: "('k, 'v) CachedDictStorage \<Rightarrow> ('k, 'v) CachedDictStorage" where
  "CachedDictStorage_clear s = s\<lparr>cache := Map.empty, dirty_keys := []\<rparr>"

definition CachedDictStorage_drop ::
  "('k, 'v) CachedDictStorage \<Rightarrow> 'k \<Rightarrow> ('k, 'v) CachedDictStorage" where
  "CachedDictStorage_drop s key =
     s\<lparr>cache := (cache s)(key := None),
       dirty_keys := removeAll key (dirty_keys s),
       persistent := SQLiteDictStorage_drop (persistent s) key\<rparr>"

definition CachedDictStorage_exists :: "('k, 'v) CachedDictStorage \<Rightarrow> 'k \<Rightarrow> bool" where
  "CachedDictStorage_exists s key =
     (if cache s key \<noteq> None then True else SQLiteDictStorage_exists (persistent s) key)"

text \<open>The operations of the cache as commands, and the state each one leaves.\<close>

datatype ('k, 'v) cache_op =
  Get 'k | Set 'k 'v | Drop 'k | Exists 'k | Commit "connection option" | Clear

fun run_op :: "('k, 'v) cache_op \<Rightarrow> ('k, 'v) CachedDictStorage \<Rightarrow> ('k, 'v) CachedDictStorage" where
  "run_op (Get key) s = snd (CachedDictStorage_get s key)"
| "run_op (Set key v) s = CachedDictStorage_set s key v"
| "run_op (Drop key) s = CachedDictStorage_drop s key"
| "run_op (Exists key) s = s"
| "run_op (Commit conn) s = snd (CachedDictStorage_commit s conn)"
| "run_op Clear s = CachedDictStorage_clear s"

definition dirty_subset_cache :: "('k, 'v) CachedDictStorage \<Rightarrow> bool" where
  "dirty_subset_cache s = (set (dirty_keys s) \<subseteq> dom (cache s))"

section \<open>Values, refs, types, ops and calls\<close>

text \<open>
  Python objects as far as the engine looks into them, and the three ref variants. A ref
  carries \<open>cid\<close>, \<open>hid\<close>, \<open>in_memory\<close> and its \<open>obj\<close>: the value of an atom (\<open>VNone\<close>
  when detached), the child refs of a list, the keyed child refs of a dict (a Python
  dict is the list of its items in insertion order). \<open>VIgnore v\<close> is \<open>_Ignore(v)\<close>, an
  argument that the storage is told to ignore.
\<close>

datatype pyobj =
    VNone
  | VInt int
  | VStr string
  | VList "pyobj list"
  | VDict "(string \<times> pyobj) list"
  | VRef ref
  | VIgnore pyobj
and ref =
    AtomRef (cid: string) (hid: string) (in_memory: bool) (obj: pyobj)
  | ListRef (cid: string) (hid: string) (in_memory: bool) (elts: "ref list")
  | DictRef (cid: string) (hid: string) (in_memory: bool) (entries: "(string \<times> ref) list")

datatype tp = AtomType | ListType tp | DictType tp tp

text \<open>
  Modelled from the spec: the methods of \<open>Ref\<close> (\<open>model.py\<close> is not among the sources).
  "A ref is detached when not in memory: only cid, hid, and structural shape are
  retained"; "shape() of a composite ref returns a detached skeleton (same type,
  children replaced by detached refs)". \<open>attached(obj)\<close> is the ref in memory with the
  given \<open>obj\<close>, \<open>shallow_copy()\<close> a copy of the ref, \<open>with_hid(hid)\<close> the ref under another
  history id.
\<close>

fun detached :: "ref \<Rightarrow> ref" where
  "detached (AtomRef c h m v) = AtomRef c h False VNone"
| "detached (ListRef c h m es) = ListRef c h False (map detached es)"
| "detached (DictRef c h m kvs) = DictRef c h False (map (\<lambda>(k, r). (k, detached r)) kvs)"

definition shape :: "ref \<Rightarrow> ref" where
  "shape r = detached r"

definition attached_atom :: "ref \<Rightarrow> pyobj \<Rightarrow> ref" where
  "attached_atom r v = AtomRef (cid r) (hid r) True v"

definition attached_list :: "ref \<Rightarrow> ref list \<Rightarrow> ref" where
  "attached_list r es = ListRef (cid r) (hid r) True es"

definition attached_dict :: "ref \<Rightarrow> (string \<times> ref) list \<Rightarrow> ref" where
  "attached_dict r kvs = DictRef (cid r) (hid r) True kvs"

definition shallow_copy :: "ref \<Rightarrow> ref" where
  "shallow_copy r = r"

fun with_hid :: "ref \<Rightarrow> string \<Rightarrow> ref" where
  "with_hid (AtomRef c h m v) h' = AtomRef c h' m v"
| "with_hid (ListRef c h m es) h' = ListRef c h' m es"
| "with_hid (DictRef c h m kvs) h' = DictRef c h' m kvs"

text \<open>
  Modelled from the spec: \<open>serialize\<close> and \<open>deserialize\<close> of \<open>utils.py\<close>, the value codec
  ("equal logical values produce equal bytes"); the bytes are kept as the value they
  encode.
\<close>

datatype blob = Blob pyobj

definition serialize :: "pyobj \<Rightarrow> blob" where
  "serialize v = Blob v"

fun deserialize :: "blob \<Rightarrow> pyobj" where
  "deserialize (Blob v) = v"

text \<open>
  An \<open>Op\<close> (\<open>model.py\<close>, not among the sources) is taken as given: its name and flags and,
  as fields, the methods the engine calls on it.
  \<^item> \<open>signature\<close>: \<open>inspect.signature(op.f)\<close>, the parameters in order, each with its
    name, kind, default (\<open>Empty\<close> for none, \<open>NewArgDefault v\<close> for a default marked
    \<open>NewArgDefault(v)\<close>) and its annotation as the type \<open>Type.from_annotation\<close> makes of it.
  \<^item> \<open>f\<close>: the function of the op, applied to the positional arguments, the keyword
    arguments and \<open>shared\<close>, the unwrapped inputs whose objects it reaches through its
    arguments; it yields what the function returns and the state in which it leaves
    \<open>shared\<close> (Python passes objects by reference, so a function may change them in
    place). A structural op is applied to the wrapped inputs as keyword arguments.
  \<^item> \<open>component\<close>: \<open>get_dep_key_from_func(op.f)\<close>.
  \<^item> \<open>parse_returns\<close>: \<open>parse_returns(sig, returns, nout, output_names)\<close> followed by
    \<open>Type.from_annotation\<close> on each annotation: the outputs by slot name and their types.
  \<^item> \<open>get_ordered_outputs\<close> on a dict of refs and, in \<open>lookup_call\<close>, on a dict of names.
\<close>

datatype kind = POSITIONAL_ONLY | POSITIONAL_OR_KEYWORD | VAR_POSITIONAL | KEYWORD_ONLY | VAR_KEYWORD

datatype default_value = Empty | Default pyobj | NewArgDefault pyobj

record Parameter =
  param_name :: string
  param_kind :: kind
  param_default :: default_value
  param_annotation :: tp

record Op =
  op_name :: string
  signature :: "Parameter list"
  f :: "pyobj list \<Rightarrow> (string \<times> pyobj) list \<Rightarrow> (string \<times> pyobj) list
          \<Rightarrow> pyobj \<times> (string \<times> pyobj) list"
  structural :: bool
  allow_side_effects :: bool
  component :: string
  get_pre_call_id :: "(string \<times> ref) list \<Rightarrow> string"
  get_call_history_id :: "(string \<times> ref) list \<Rightarrow> string option \<Rightarrow> string"
  get_call_content_id :: "(string \<times> ref) list \<Rightarrow> string option \<Rightarrow> string"
  get_output_history_ids :: "string \<Rightarrow> string list \<Rightarrow> (string \<times> string) list"
  get_ordered_outputs :: "(string \<times> ref) list \<Rightarrow> ref list"
  get_ordered_output_names :: "(string \<times> string) list \<Rightarrow> string list"
  parse_returns :: "pyobj \<Rightarrow> error + ((string \<times> pyobj) list \<times> (string \<times> tp) list)"

text \<open>
  \<open>Op.detached()\<close> keeps the metadata of the op; nothing in the engine reads the
  function of a stored op.
\<close>

definition Op_detached :: "Op \<Rightarrow> Op" where
  "Op_detached o1 = o1"

record Call =
  call_op :: Op
  call_cid :: string
  call_hid :: string
  inputs :: "(string \<times> ref) list"
  outputs :: "(string \<times> ref) list"
  semantic_version :: "string option"
  content_version :: "string option"

text \<open>
  The external versioner, as far as the call engine consults it: \<open>lookup_call\<close> for a
  component and a pre-call id (\<open>None\<close> when it declines) and \<open>get_version_ids\<close> for a
  pre-call id, giving the content and the semantic version.
\<close>

record Versioner =
  versioner_lookup_call :: "string \<Rightarrow> string \<Rightarrow> (string \<times> string) option"
  versioner_get_version_ids :: "string \<Rightarrow> string \<times> string"

section \<open>The call table\<close>

text \<open>
  A row of the call table, in memory (a row of the data frame indexed by
  \<open>(call_history_id, name)\<close>) and in the database (primary key
  \<open>(call_history_id, name)\<close>). \<open>slot_name\<close> is the column \<open>name\<close>, \<open>row_op\<close> the column \<open>op\<close>.
\<close>

datatype direction = In | Out

record row =
  call_history_id :: string
  slot_name :: string
  direction :: direction
  call_content_id :: string
  ref_content_id :: string
  ref_history_id :: string
  row_op :: string

text \<open>The dict built by \<open>mget_data\<close> for one call.\<close>

record call_data =
  cd_op_name :: string
  cd_cid :: string
  cd_hid :: string
  input_hids :: "(string \<times> string) list"
  output_hids :: "(string \<times> string) list"
  input_cids :: "(string \<times> string) list"
  output_cids :: "(string \<times> string) list"

text \<open>
  Grouping rows into the record of a call: \<open>op_name\<close> and \<open>cid\<close> come from the first row,
  the four dicts are filled row by row (a row that is not \<open>in\<close> is \<open>out\<close>). No row at all
  is the \<open>KeyError\<close> of \<open>res_dict[hid]\<close> (of \<open>call_data[hid]\<close> in the database variant).
\<close>

definition rows_of :: "row list \<Rightarrow> string \<Rightarrow> row list" where
  "rows_of rs h = filter (\<lambda>r. call_history_id r = h) rs"

definition dict_of_rows :: "(row \<Rightarrow> string) \<Rightarrow> direction \<Rightarrow> row list \<Rightarrow> (string \<times> string) list" where
  "dict_of_rows col d rs =
     foldl (\<lambda>acc r. AList.update (slot_name r) (col r) acc) []
       (filter (\<lambda>r. direction r = d) rs)"

definition call_data_of :: "row list \<Rightarrow> string \<Rightarrow> error + call_data" where
  "call_data_of rs h =
     (case rows_of rs h of
        [] \<Rightarrow> Inl KeyError
      | r0 # rest \<Rightarrow>
          Inr \<lparr>cd_op_name = row_op r0, cd_cid = call_content_id r0, cd_hid = h,
               input_hids = dict_of_rows ref_history_id In (r0 # rest),
               output_hids = dict_of_rows ref_history_id Out (r0 # rest),
               input_cids = dict_of_rows ref_content_id In (r0 # rest),
               output_cids = dict_of_rows ref_content_id Out (r0 # rest)\<rparr>)"

fun mget_data_rows :: "row list \<Rightarrow> string list \<Rightarrow> error + call_data list" where
  "mget_data_rows rs [] = Inr []"
| "mget_data_rows rs (h # hs) =
     (case call_data_of rs h of
        Inl e \<Rightarrow> Inl e
      | Inr d \<Rightarrow> (case mget_data_rows rs hs of Inl e \<Rightarrow> Inl e | Inr ds \<Rightarrow> Inr (d # ds)))"

subsection \<open>\<open>InMemCallStorage\<close>\<close>

text \<open>\<open>df\<close> is the data frame, \<open>call_hids\<close> the Python set kept beside it for lookups.\<close>

record InMemCallStorage =
  df :: "row list"
  call_hids :: "string list"

definition InMemCallStorage_init :: InMemCallStorage where
  "InMemCallStorage_init = \<lparr>df = [], call_hids = []\<rparr>"

text \<open>\<open>self.df.loc[(hid, k), :] = ...\<close>: the row with that index is replaced, or appended.\<close>

fun df_set :: "row \<Rightarrow> row list \<Rightarrow> row list" where
  "df_set r [] = [r]"
| "df_set r (x # xs) =
     (if call_history_id x = call_history_id r \<and> slot_name x = slot_name r
      then r # xs else x # df_set r xs)"

definition row_of :: "Call \<Rightarrow> direction \<Rightarrow> string \<times> ref \<Rightarrow> row" where
  "row_of c d kv =
     \<lparr>call_history_id = call_hid c, slot_name = fst kv, direction = d,
      call_content_id = call_cid c, ref_content_id = cid (snd kv),
      ref_history_id = hid (snd kv), row_op = op_name (call_op c)\<rparr>"

definition InMemCallStorage_save :: "InMemCallStorage \<Rightarrow> Call \<Rightarrow> InMemCallStorage" where
  "InMemCallStorage_save s c =
     (if call_hid c \<in> set (call_hids s) then s
      else
        let d1 = foldl (\<lambda>d kv. df_set (row_of c In kv) d) (df s) (inputs c);
            d2 = foldl (\<lambda>d kv. df_set (row_of c Out kv) d) d1 (outputs c)
        in \<lparr>df = d2, call_hids = List.insert (call_hid c) (call_hids s)\<rparr>)"

text \<open>\<open>self.df.index.levels[0]\<close>: the call ids that index a row.\<close>

definition levels0 :: "row list \<Rightarrow> string list" where
  "levels0 rs = remdups (map call_history_id rs)"

text \<open>
  \<open>drop\<close> raises \<open>ValueError\<close> for an id that indexes no row; \<open>self.call_hids.remove(hid)\<close>
  raises \<open>KeyError\<close> for an id the set does not hold.
\<close>

definition InMemCallStorage_drop ::
  "InMemCallStorage \<Rightarrow> string \<Rightarrow> (error + unit) \<times> InMemCallStorage" where
  "InMemCallStorage_drop s h =
     (if h \<notin> set (levels0 (df s)) then (Inl ValueError_no_such_call, s)
      else
        let s1 = s\<lparr>df := filter (\<lambda>r. call_history_id r \<noteq> h) (df s)\<rparr>
        in if h \<in> set (call_hids s1)
           then (Inr (), s1\<lparr>call_hids := removeAll h (call_hids s1)\<rparr>)
           else (Inl KeyError, s1))"

definition InMemCallStorage_exists :: "InMemCallStorage \<Rightarrow> string \<Rightarrow> bool" where
  "InMemCallStorage_exists s h = (h \<in> set (call_hids s))"

definition InMemCallStorage_mget_data :: "InMemCallStorage \<Rightarrow> string list \<Rightarrow> error + call_data list" where
  "InMemCallStorage_mget_data s hs = mget_data_rows (df s) hs"

definition InMemCallStorage_get_data :: "InMemCallStorage \<Rightarrow> string \<Rightarrow> error + call_data" where
  "InMemCallStorage_get_data s h =
     (if \<not> InMemCallStorage_exists s h then Inl ValueError_no_such_call
      else (case InMemCallStorage_mget_data s [h] of
              Inl e \<Rightarrow> Inl e
            | Inr ds \<Rightarrow> (case ds of [] \<Rightarrow> Inl KeyError | d # _ \<Rightarrow> Inr d)))"

definition get_creator_hids :: "row list \<Rightarrow> string list \<Rightarrow> string list" where
  "get_creator_hids rs ref_hids =
     remdups (map call_history_id
       (filter (\<lambda>r. ref_history_id r \<in> set ref_hids \<and> direction r = Out) rs))"

definition get_consumer_hids :: "row list \<Rightarrow> string list \<Rightarrow> string list" where
  "get_consumer_hids rs ref_hids =
     remdups (map call_history_id
       (filter (\<lambda>r. ref_history_id r \<in> set ref_hids \<and> direction r = In) rs))"

definition get_input_hids :: "row list \<Rightarrow> string list \<Rightarrow> string list" where
  "get_input_hids rs hs =
     remdups (map ref_history_id
       (filter (\<lambda>r. call_history_id r \<in> set hs \<and> direction r = In) rs))"

definition get_output_hids :: "row list \<Rightarrow> string list \<Rightarrow> string list" where
  "get_output_hids rs hs =
     remdups (map ref_history_id
       (filter (\<lambda>r. call_history_id r \<in> set hs \<and> direction r = Out) rs))"

text \<open>
  \<open>get_dependents\<close>: the \<open>while True\<close> loop, bounded by a fuel argument. Sets are lists
  without repetition; \<open>a - b\<close> is \<open>minus_list\<close>, \<open>a |= b\<close> appends the new elements.
\<close>

definition minus_list :: "string list \<Rightarrow> string list \<Rightarrow> string list" where
  "minus_list xs ys = filter (\<lambda>x. x \<notin> set ys) xs"

definition union_list :: "string list \<Rightarrow> string list \<Rightarrow> string list" where
  "union_list xs ys = xs @ minus_list (remdups ys) xs"

fun get_dependents_loop ::
  "nat \<Rightarrow> row list \<Rightarrow> string list \<Rightarrow> string list \<Rightarrow> string list \<Rightarrow> string list
     \<Rightarrow> error + (string list \<times> string list)" where
  "get_dependents_loop 0 rs refs_result calls_result cur_refs cur_calls = Inl OutOfFuel"
| "get_dependents_loop (Suc n) rs refs_result calls_result cur_refs cur_calls =
     (let calls_upd = minus_list (get_consumer_hids rs cur_refs) calls_result;
          refs_upd = minus_list (get_output_hids rs cur_calls) refs_result
      in if calls_upd = [] \<and> refs_upd = [] then Inr (refs_result, calls_result)
         else get_dependents_loop n rs (union_list refs_result refs_upd)
                (union_list calls_result calls_upd) refs_upd calls_upd)"

definition get_dependents ::
  "nat \<Rightarrow> row list \<Rightarrow> string list \<Rightarrow> string list \<Rightarrow> error + (string list \<times> string list)" where
  "get_dependents fuel rs ref_hids hs =
     get_dependents_loop fuel rs (remdups ref_hids) (remdups hs) (remdups ref_hids) (remdups hs)"

subsection \<open>\<open>SQLiteCallStorage\<close>\<close>

text \<open>The table \<open>calls\<close> is the list of its rows.\<close>

definition SQLiteCallStorage_drop :: "row list \<Rightarrow> string \<Rightarrow> row list" where
  "SQLiteCallStorage_drop rs h = filter (\<lambda>r. call_history_id r \<noteq> h) rs"

definition SQLiteCallStorage_exists :: "row list \<Rightarrow> string \<Rightarrow> bool" where
  "SQLiteCallStorage_exists rs h = (0 < length (rows_of rs h))"

definition SQLiteCallStorage_mget_data :: "row list \<Rightarrow> string list \<Rightarrow> error + call_data list" where
  "SQLiteCallStorage_mget_data rs hs = mget_data_rows rs hs"

subsection \<open>\<open>CachedCallStorage\<close>\<close>

text \<open>
  \<open>call_storage\<close> is \<open>persistent\<close>, \<open>call_cache\<close> is \<open>cache\<close>: the names under which
  \<open>Storage\<close> holds the same two objects.
\<close>

record CachedCallStorage =
  call_storage :: "row list"
  call_cache :: InMemCallStorage
  dirty_hids :: "string list"

definition CachedCallStorage_init :: "row list \<Rightarrow> CachedCallStorage" where
  "CachedCallStorage_init p =
     \<lparr>call_storage = p, call_cache = InMemCallStorage_init, dirty_hids = []\<rparr>"

definition CachedCallStorage_save :: "CachedCallStorage \<Rightarrow> Call \<Rightarrow> CachedCallStorage" where
  "CachedCallStorage_save s c =
     s\<lparr>call_cache := InMemCallStorage_save (call_cache s) c,
       dirty_hids := List.insert (call_hid c) (dirty_hids s)\<rparr>"

definition CachedCallStorage_drop ::
  "CachedCallStorage \<Rightarrow> string \<Rightarrow> (error + unit) \<times> CachedCallStorage" where
  "CachedCallStorage_drop s h =
     (case InMemCallStorage_drop (call_cache s) h of
        (Inl e, c') \<Rightarrow> (Inl e, s\<lparr>call_cache := c'\<rparr>)
      | (Inr u, c') \<Rightarrow>
          (Inr (), s\<lparr>call_cache := c', dirty_hids := removeAll h (dirty_hids s)\<rparr>))"

definition CachedCallStorage_exists :: "CachedCallStorage \<Rightarrow> string \<Rightarrow> bool" where
  "CachedCallStorage_exists s h =
     (if InMemCallStorage_exists (call_cache s) h then True
      else SQLiteCallStorage_exists (call_storage s) h)"

section \<open>The storage\<close>

text \<open>
  \<open>calls\<close> is the \<open>CachedCallStorage\<close>; \<open>self.call_storage\<close> and \<open>self.call_cache\<close> are its
  two components. \<open>versioned\<close> is \<open>self._versioned\<close>. \<open>current_context\<close> says whether the
  process-wide \<open>Context.current_context\<close> is set.
\<close>

record Storage =
  calls :: CachedCallStorage
  atoms :: "(string, blob) CachedDictStorage"
  shapes :: "(string, ref) CachedDictStorage"
  ops :: "(string, Op) CachedDictStorage"
  versioned :: bool
  cached_versioner :: "Versioner option"
  current_context :: bool

text \<open>A storage without dependency tracking over an empty in-memory database.\<close>

definition Storage_init :: Storage where
  "Storage_init =
     \<lparr>calls = CachedCallStorage_init [],
      atoms = CachedDictStorage_init [],
      shapes = CachedDictStorage_init [],
      ops = CachedDictStorage_init [],
      versioned = False,
      cached_versioner = None,
      current_context = False\<rparr>"

definition in_context :: "Storage \<Rightarrow> bool" where
  "in_context st = current_context st"

text \<open>
  \<open>__enter__\<close>: the context is set and, for a versioned storage, the versioner that
  \<open>sync_code\<close> returns (given as \<open>v\<close>) is cached.
\<close>

definition Storage_enter :: "Versioner \<Rightarrow> Storage \<Rightarrow> Storage" where
  "Storage_enter v st =
     (if versioned st then st\<lparr>current_context := True, cached_versioner := Some v\<rparr>
      else st\<lparr>current_context := True\<rparr>)"

subsection \<open>Preloading the caches\<close>

text \<open>
  \<open>preload_shapes\<close>, \<open>preload_ops\<close> and \<open>preload_atoms\<close> assign to the \<open>cache\<close> attribute the
  dict that \<open>load_all\<close> makes of the table; the dirty set stays as it is.
\<close>

definition preload_shapes :: "Storage \<Rightarrow> Storage" where
  "preload_shapes st =
     st\<lparr>shapes := (shapes st)\<lparr>cache := SQLiteDictStorage_load_all (persistent (shapes st))\<rparr>\<rparr>"

definition preload_ops :: "Storage \<Rightarrow> Storage" where
  "preload_ops st =
     st\<lparr>ops := (ops st)\<lparr>cache := SQLiteDictStorage_load_all (persistent (ops st))\<rparr>\<rparr>"

definition preload_atoms :: "Storage \<Rightarrow> Storage" where
  "preload_atoms st =
     st\<lparr>atoms := (atoms st)\<lparr>cache := SQLiteDictStorage_load_all (persistent (atoms st))\<rparr>\<rparr>"

subsection \<open>Refs\<close>

fun save_ref :: "ref \<Rightarrow> Storage \<Rightarrow> Storage"
  and save_refs :: "ref list \<Rightarrow> Storage \<Rightarrow> Storage"
  and save_ref_items :: "(string \<times> ref) list \<Rightarrow> Storage \<Rightarrow> Storage" where
  "save_ref (AtomRef c h m v) st =
     (if CachedDictStorage_exists (shapes st) h then st
      else
        let st1 = (if m then st\<lparr>atoms := CachedDictStorage_set (atoms st) c (serialize v)\<rparr>
                   else st)
        in st1\<lparr>shapes := CachedDictStorage_set (shapes st1) h (detached (AtomRef c h m v))\<rparr>)"
| "save_ref (ListRef c h m es) st =
     (if CachedDictStorage_exists (shapes st) h then st
      else save_refs es
             (st\<lparr>shapes := CachedDictStorage_set (shapes st) h (shape (ListRef c h m es))\<rparr>))"
| "save_ref (DictRef c h m kvs) st =
     (if CachedDictStorage_exists (shapes st) h then st
      else save_ref_items kvs
             (st\<lparr>shapes := CachedDictStorage_set (shapes st) h (shape (DictRef c h m kvs))\<rparr>))"
| "save_refs [] st = st"
| "save_refs (e # es) st = save_refs es (save_ref e st)"
| "save_ref_items [] st = st"
| "save_ref_items (kv # kvs) st = save_ref_items kvs (save_ref (snd kv) st)"

text \<open>
  \<open>load_ref\<close> follows the history ids stored in the shapes, so its recursion is bounded
  by a fuel argument. The reads go through the caches and fill them. The list branch
  returns \<open>shape.attached(obj=shape.obj)\<close>, the dict branch \<open>shape.attached(obj=obj)\<close>
  (the keys of a dict are distinct, so \<open>obj[k] = ...\<close> in order is the list of the items).
\<close>

fun load_ref :: "nat \<Rightarrow> Storage \<Rightarrow> string \<Rightarrow> bool \<Rightarrow> (error + ref) \<times> Storage"
  and load_refs :: "nat \<Rightarrow> Storage \<Rightarrow> string list \<Rightarrow> bool \<Rightarrow> (error + ref list) \<times> Storage"
  and load_ref_items ::
    "nat \<Rightarrow> Storage \<Rightarrow> (string \<times> string) list \<Rightarrow> bool \<Rightarrow> (error + (string \<times> ref) list) \<times> Storage"
  where
  "load_ref 0 st h lazy = (Inl OutOfFuel, st)"
| "load_ref (Suc n) st h lazy =
     (case CachedDictStorage_get (shapes st) h of
        (Inl e, sh) \<Rightarrow> (Inl e, st\<lparr>shapes := sh\<rparr>)
      | (Inr shp, sh) \<Rightarrow>
          (let st1 = st\<lparr>shapes := sh\<rparr> in
           case shp of
             AtomRef c h' m v \<Rightarrow>
               if lazy then (Inr (shallow_copy shp), st1)
               else (case CachedDictStorage_get (atoms st1) c of
                       (Inl e, a) \<Rightarrow> (Inl e, st1\<lparr>atoms := a\<rparr>)
                     | (Inr b, a) \<Rightarrow> (Inr (attached_atom shp (deserialize b)), st1\<lparr>atoms := a\<rparr>))
           | ListRef c h' m es \<Rightarrow>
               (case load_refs n st1 (map hid es) lazy of
                  (Inl e, st2) \<Rightarrow> (Inl e, st2)
                | (Inr loaded, st2) \<Rightarrow> (Inr (attached_list shp (elts shp)), st2))
           | DictRef c h' m kvs \<Rightarrow>
               (case load_ref_items n st1 (map (\<lambda>kv. (fst kv, hid (snd kv))) kvs) lazy of
                  (Inl e, st2) \<Rightarrow> (Inl e, st2)
                | (Inr loaded, st2) \<Rightarrow> (Inr (attached_dict shp loaded), st2))))"
| "load_refs n st [] lazy = (Inr [], st)"
| "load_refs n st (h # hs) lazy =
     (case load_ref n st h lazy of
        (Inl err, st1) \<Rightarrow> (Inl err, st1)
      | (Inr r, st1) \<Rightarrow>
          (case load_refs n st1 hs lazy of
             (Inl err, st2) \<Rightarrow> (Inl err, st2)
           | (Inr rs, st2) \<Rightarrow> (Inr (r # rs), st2)))"
| "load_ref_items n st [] lazy = (Inr [], st)"
| "load_ref_items n st (kh # khs) lazy =
     (case load_ref n st (snd kh) lazy of
        (Inl err, st1) \<Rightarrow> (Inl err, st1)
      | (Inr r, st1) \<Rightarrow>
          (case load_ref_items n st1 khs lazy of
             (Inl err, st2) \<Rightarrow> (Inl err, st2)
           | (Inr rs, st2) \<Rightarrow> (Inr ((fst kh, r) # rs), st2)))"

subsection \<open>Calls\<close>

definition exists_call :: "Storage \<Rightarrow> string \<Rightarrow> bool" where
  "exists_call st h = CachedCallStorage_exists (calls st) h"

definition save_call :: "Storage \<Rightarrow> Call \<Rightarrow> Storage" where
  "save_call st c =
     (if CachedCallStorage_exists (calls st) (call_hid c) then st
      else
        let st1 = (if \<not> CachedDictStorage_exists (ops st) (op_name (call_op c))
                   then st\<lparr>ops := CachedDictStorage_set (ops st) (op_name (call_op c))
                                    (Op_detached (call_op c))\<rparr>
                   else st);
            st2 = save_refs (map snd (inputs c) @ map snd (outputs c)) st1
        in st2\<lparr>calls := CachedCallStorage_save (calls st2) c\<rparr>)"

text \<open>The two local functions of \<open>mget_call\<close>.\<close>

definition split_list :: "'a list \<Rightarrow> bool list \<Rightarrow> 'a list \<times> 'a list" where
  "split_list lst msk =
     (map fst (filter snd (zip lst msk)), map fst (filter (\<lambda>xm. \<not> snd xm) (zip lst msk)))"

fun merge_lists :: "'a list \<Rightarrow> 'a list \<Rightarrow> bool list \<Rightarrow> error + 'a list" where
  "merge_lists list_true list_false [] = Inr []"
| "merge_lists list_true list_false (m # msk) =
     (if m then
        (case list_true of
           [] \<Rightarrow> Inl IndexError
         | x # xs \<Rightarrow> (case merge_lists xs list_false msk of
                       Inl e \<Rightarrow> Inl e | Inr res \<Rightarrow> Inr (x # res)))
      else
        (case list_false of
           [] \<Rightarrow> Inl IndexError
         | x # xs \<Rightarrow> (case merge_lists list_true xs msk of
                       Inl e \<Rightarrow> Inl e | Inr res \<Rightarrow> Inr (x # res))))"

text \<open>
  \<open>_get_call_from_data\<close>: the op is read from \<open>self.ops\<close>, then the inputs and the outputs
  are loaded by history id. The record of a call holds no \<open>semantic_version\<close> and no
  \<open>content_version\<close> key, so both are \<open>None\<close>.
\<close>

definition get_call_from_data :: "nat \<Rightarrow> Storage \<Rightarrow> call_data \<Rightarrow> bool \<Rightarrow> (error + Call) \<times> Storage" where
  "get_call_from_data fuel st d lazy =
     (case CachedDictStorage_get (ops st) (cd_op_name d) of
        (Inl e, os) \<Rightarrow> (Inl e, st\<lparr>ops := os\<rparr>)
      | (Inr o1, os) \<Rightarrow>
          (case load_ref_items fuel (st\<lparr>ops := os\<rparr>) (input_hids d) lazy of
             (Inl e, st1) \<Rightarrow> (Inl e, st1)
           | (Inr ins, st1) \<Rightarrow>
               (case load_ref_items fuel st1 (output_hids d) lazy of
                  (Inl e, st2) \<Rightarrow> (Inl e, st2)
                | (Inr outs, st2) \<Rightarrow>
                    (Inr \<lparr>call_op = o1, call_cid = cd_cid d, call_hid = cd_hid d,
                          inputs = ins, outputs = outs,
                          semantic_version = None, content_version = None\<rparr>, st2))))"

fun get_calls_from_data ::
  "nat \<Rightarrow> Storage \<Rightarrow> call_data list \<Rightarrow> bool \<Rightarrow> (error + Call list) \<times> Storage" where
  "get_calls_from_data fuel st [] lazy = (Inr [], st)"
| "get_calls_from_data fuel st (d # ds) lazy =
     (case get_call_from_data fuel st d lazy of
        (Inl e, st1) \<Rightarrow> (Inl e, st1)
      | (Inr c, st1) \<Rightarrow>
          (case get_calls_from_data fuel st1 ds lazy of
             (Inl e, st2) \<Rightarrow> (Inl e, st2)
           | (Inr cs, st2) \<Rightarrow> (Inr (c # cs), st2)))"

definition mget_call :: "nat \<Rightarrow> Storage \<Rightarrow> string list \<Rightarrow> bool \<Rightarrow> (error + Call list) \<times> Storage" where
  "mget_call fuel st hids lazy =
     (let msk = map (InMemCallStorage_exists (call_cache (calls st))) hids;
          (cache_part, db_part) = split_list hids msk
      in case InMemCallStorage_mget_data (call_cache (calls st)) cache_part of
           Inl e \<Rightarrow> (Inl e, st)
         | Inr cache_datas \<Rightarrow>
             (case SQLiteCallStorage_mget_data (call_storage (calls st)) db_part of
                Inl e \<Rightarrow> (Inl e, st)
              | Inr db_datas \<Rightarrow>
                  (case merge_lists cache_datas db_datas msk of
                     Inl e \<Rightarrow> (Inl e, st)
                   | Inr call_datas \<Rightarrow> get_calls_from_data fuel st call_datas lazy)))"

definition get_call :: "nat \<Rightarrow> Storage \<Rightarrow> string \<Rightarrow> bool \<Rightarrow> (error + Call) \<times> Storage" where
  "get_call fuel st h lazy =
     (case mget_call fuel st [h] lazy of
        (Inl e, st1) \<Rightarrow> (Inl e, st1)
      | (Inr cs, st1) \<Rightarrow> (case cs of [] \<Rightarrow> (Inl IndexError, st1) | c # _ \<Rightarrow> (Inr c, st1)))"

text \<open>
  \<open>drop_calls\<close>. Its argument is a collection of calls or of history ids. The first loop
  drops from the cache (\<open>InMemCallStorage.drop\<close>, which can raise), the second from the
  database. The dependents are computed on the rows of the database.
\<close>

datatype calls_or_hids = Calls "Call list" | Hids "string list"

fun given_hids :: "calls_or_hids \<Rightarrow> string list" where
  "given_hids (Calls cs) = map call_hid cs"
| "given_hids (Hids hs) = hs"

fun drop_cache_loop :: "string list \<Rightarrow> InMemCallStorage \<Rightarrow> (error + unit) \<times> InMemCallStorage" where
  "drop_cache_loop [] c = (Inr (), c)"
| "drop_cache_loop (h # hs) c =
     (if InMemCallStorage_exists c h then
        (case InMemCallStorage_drop c h of
           (Inl e, c') \<Rightarrow> (Inl e, c')
         | (Inr u, c') \<Rightarrow> drop_cache_loop hs c')
      else drop_cache_loop hs c)"

fun drop_persistent_loop :: "string list \<Rightarrow> row list \<Rightarrow> row list" where
  "drop_persistent_loop [] rs = rs"
| "drop_persistent_loop (h # hs) rs =
     (if SQLiteCallStorage_exists rs h
      then drop_persistent_loop hs (SQLiteCallStorage_drop rs h)
      else drop_persistent_loop hs rs)"

definition drop_calls :: "nat \<Rightarrow> Storage \<Rightarrow> calls_or_hids \<Rightarrow> bool \<Rightarrow> (error + unit) \<times> Storage" where
  "drop_calls fuel st given delete_dependents =
     (let hids0 = remdups (given_hids given);
          expanded =
            (if delete_dependents
             then (case get_dependents fuel (call_storage (calls st)) [] hids0 of
                     Inl e \<Rightarrow> Inl e
                   | Inr (refs, dependent_call_hids) \<Rightarrow> Inr (union_list hids0 dependent_call_hids))
             else Inr hids0)
      in case expanded of
           Inl e \<Rightarrow> (Inl e, st)
         | Inr hids \<Rightarrow>
             (case drop_cache_loop hids (call_cache (calls st)) of
                (Inl e, c') \<Rightarrow> (Inl e, st\<lparr>calls := (calls st)\<lparr>call_cache := c'\<rparr>\<rparr>)
              | (Inr u, c') \<Rightarrow>
                  (Inr (), st\<lparr>calls := (calls st)
                               \<lparr>call_cache := c',
                                call_storage := drop_persistent_loop hids (call_storage (calls st))\<rparr>\<rparr>)))"

subsection \<open>Provenance queries\<close>

definition get_creators :: "nat \<Rightarrow> Storage \<Rightarrow> string list \<Rightarrow> (error + Call list) \<times> Storage" where
  "get_creators fuel st ref_hids =
     (if in_context st then (Inl NotImplementedError_in_context, st)
      else mget_call fuel st (get_creator_hids (call_storage (calls st)) ref_hids) True)"

definition get_consumers :: "nat \<Rightarrow> Storage \<Rightarrow> string list \<Rightarrow> (error + Call list) \<times> Storage" where
  "get_consumers fuel st ref_hids =
     (if in_context st then (Inl NotImplementedError_in_context, st)
      else mget_call fuel st (get_consumer_hids (call_storage (calls st)) ref_hids) True)"

definition get_orphans :: "Storage \<Rightarrow> error + string list" where
  "get_orphans st =
     (if in_context st then Inl NotImplementedError_in_context
      else
        let all_hids = remdups (SQLiteDictStorage_keys (persistent (shapes st)));
            hids_in_calls = remdups (map ref_history_id (call_storage (calls st)))
        in Inr (minus_list all_hids hids_in_calls))"

definition get_unreferenced_cids :: "Storage \<Rightarrow> error + string list" where
  "get_unreferenced_cids st =
     (if in_context st then Inl NotImplementedError_in_context
      else
        let all_cids = remdups (SQLiteDictStorage_keys (persistent (atoms st)));
            cids_in_calls = remdups (map ref_content_id (call_storage (calls st)));
            cids_in_shapes = map cid (SQLiteDictStorage_values (persistent (shapes st)))
        in Inr (minus_list (minus_list all_cids cids_in_calls) cids_in_shapes))"

section \<open>The call engine\<close>

text \<open>
  Modelled from the spec: what the engine uses of \<open>model.py\<close> besides the classes above
  (the file is not among the sources). \<open>get_content_hash\<close> is the hash of the serialized
  bytes ("Atom CID = hash of serialized bytes"); \<open>new_hid\<close> chooses the history id of a
  value introduced from outside a call; the four structural ops are \<open>__make_list__\<close>,
  \<open>__make_dict__\<close>, \<open>__get_list_item__\<close> and \<open>__get_dict_value__\<close>.
\<close>

record Model =
  get_content_hash :: "blob \<Rightarrow> string"
  new_hid :: "pyobj \<Rightarrow> string"
  make_list :: Op
  make_dict :: Op
  get_list_item :: Op
  get_dict_value :: Op

text \<open>
  Modelled from the spec: \<open>wrap_atom(obj, history_id)\<close>, "wrap the value as an AtomRef
  (computing its cid)"; the ref is in memory and holds the value.
\<close>

definition wrap_atom :: "Model \<Rightarrow> pyobj \<Rightarrow> string option \<Rightarrow> ref" where
  "wrap_atom M v history_id =
     AtomRef (get_content_hash M (serialize v))
       (case history_id of None \<Rightarrow> new_hid M v | Some h \<Rightarrow> h) True v"

subsection \<open>Unwrapping\<close>

text \<open>The \<open>obj\<close> attribute of a ref as a Python object.\<close>

fun ref_obj :: "ref \<Rightarrow> pyobj" where
  "ref_obj (AtomRef c h m v) = v"
| "ref_obj (ListRef c h m es) = VList (map VRef es)"
| "ref_obj (DictRef c h m kvs) = VDict (map (\<lambda>kv. (fst kv, VRef (snd kv))) kvs)"

definition unwrap_atom :: "nat \<Rightarrow> Storage \<Rightarrow> ref \<Rightarrow> (error + pyobj) \<times> Storage" where
  "unwrap_atom fuel st r =
     (case r of
        AtomRef c h m v \<Rightarrow>
          if \<not> m then
            (case load_ref fuel st h False of
               (Inl e, st1) \<Rightarrow> (Inl e, st1)
             | (Inr r1, st1) \<Rightarrow> (Inr (ref_obj r1), st1))
          else (Inr v, st)
      | _ \<Rightarrow> (Inl AssertionError, st))"

text \<open>
  Modelled from the spec: \<open>recurse_on_ref_collections\<close>, by which \<open>unwrap\<close> "walks through
  refs and container refs, producing the plain value tree": an atom ref is unwrapped
  by \<open>_unwrap_atom\<close>, lists, dicts and their refs element by element, anything else is
  returned as it is.
\<close>

fun unwrap :: "nat \<Rightarrow> Storage \<Rightarrow> pyobj \<Rightarrow> (error + pyobj) \<times> Storage"
  and unwrap_ref :: "nat \<Rightarrow> Storage \<Rightarrow> ref \<Rightarrow> (error + pyobj) \<times> Storage"
  and unwrap_list :: "nat \<Rightarrow> Storage \<Rightarrow> pyobj list \<Rightarrow> (error + pyobj list) \<times> Storage"
  and unwrap_items ::
    "nat \<Rightarrow> Storage \<Rightarrow> (string \<times> pyobj) list \<Rightarrow> (error + (string \<times> pyobj) list) \<times> Storage"
  and unwrap_refs :: "nat \<Rightarrow> Storage \<Rightarrow> ref list \<Rightarrow> (error + pyobj list) \<times> Storage"
  and unwrap_ref_items ::
    "nat \<Rightarrow> Storage \<Rightarrow> (string \<times> ref) list \<Rightarrow> (error + (string \<times> pyobj) list) \<times> Storage"
  where
  "unwrap fuel st (VRef r) = unwrap_ref fuel st r"
| "unwrap fuel st (VList vs) =
     (case unwrap_list fuel st vs of
        (Inl e, st1) \<Rightarrow> (Inl e, st1) | (Inr ws, st1) \<Rightarrow> (Inr (VList ws), st1))"
| "unwrap fuel st (VDict kvs) =
     (case unwrap_items fuel st kvs of
        (Inl e, st1) \<Rightarrow> (Inl e, st1) | (Inr ws, st1) \<Rightarrow> (Inr (VDict ws), st1))"
| "unwrap fuel st VNone = (Inr VNone, st)"
| "unwrap fuel st (VInt i) = (Inr (VInt i), st)"
| "unwrap fuel st (VStr s) = (Inr (VStr s), st)"
| "unwrap fuel st (VIgnore v) = (Inr (VIgnore v), st)"
| "unwrap_ref fuel st (AtomRef c h m v) = unwrap_atom fuel st (AtomRef c h m v)"
| "unwrap_ref fuel st (ListRef c h m es) =
     (case unwrap_refs fuel st es of
        (Inl e, st1) \<Rightarrow> (Inl e, st1) | (Inr ws, st1) \<Rightarrow> (Inr (VList ws), st1))"
| "unwrap_ref fuel st (DictRef c h m kvs) =
     (case unwrap_ref_items fuel st kvs of
        (Inl e, st1) \<Rightarrow> (Inl e, st1) | (Inr ws, st1) \<Rightarrow> (Inr (VDict ws), st1))"
| "unwrap_list fuel st [] = (Inr [], st)"
| "unwrap_list fuel st (v # vs) =
     (case unwrap fuel st v of
        (Inl e, st1) \<Rightarrow> (Inl e, st1)
      | (Inr w, st1) \<Rightarrow>
          (case unwrap_list fuel st1 vs of
             (Inl e, st2) \<Rightarrow> (Inl e, st2) | (Inr ws, st2) \<Rightarrow> (Inr (w # ws), st2)))"
| "unwrap_items fuel st [] = (Inr [], st)"
| "unwrap_items fuel st (kv # kvs) =
     (case unwrap fuel st (snd kv) of
        (Inl e, st1) \<Rightarrow> (Inl e, st1)
      | (Inr w, st1) \<Rightarrow>
          (case unwrap_items fuel st1 kvs of
             (Inl e, st2) \<Rightarrow> (Inl e, st2) | (Inr ws, st2) \<Rightarrow> (Inr ((fst kv, w) # ws), st2)))"
| "unwrap_refs fuel st [] = (Inr [], st)"
| "unwrap_refs fuel st (r # rs) =
     (case unwrap_ref fuel st r of
        (Inl e, st1) \<Rightarrow> (Inl e, st1)
      | (Inr w, st1) \<Rightarrow>
          (case unwrap_refs fuel st1 rs of
             (Inl e, st2) \<Rightarrow> (Inl e, st2) | (Inr ws, st2) \<Rightarrow> (Inr (w # ws), st2)))"
| "unwrap_ref_items fuel st [] = (Inr [], st)"
| "unwrap_ref_items fuel st (kr # krs) =
     (case unwrap_ref fuel st (snd kr) of
        (Inl e, st1) \<Rightarrow> (Inl e, st1)
      | (Inr w, st1) \<Rightarrow>
          (case unwrap_ref_items fuel st1 krs of
             (Inl e, st2) \<Rightarrow> (Inl e, st2) | (Inr ws, st2) \<Rightarrow> (Inr ((fst kr, w) # ws), st2)))"

subsection \<open>Looking a call up\<close>

text \<open>
  Python binds a keyword argument to the parameter of that name, and a keyword that
  names no parameter of the callee is a \<open>TypeError\<close>. \<open>InMemCallStorage.exists\<close> has the one
  parameter \<open>call_history_id\<close>; \<open>exists_kw\<close> is a call of it with one keyword argument.
\<close>

definition InMemCallStorage_exists_kw :: "InMemCallStorage \<Rightarrow> string \<Rightarrow> string \<Rightarrow> error + bool" where
  "InMemCallStorage_exists_kw s keyword v =
     (if keyword = ''call_history_id'' then Inr (InMemCallStorage_exists s v) else Inl TypeError)"

text \<open>
  \<open>lookup_call\<close>. The versioner is consulted for a versioned storage and may decline,
  which is "not found". Then the call is looked up by history id with
  \<open>self.call_cache.exists(hid=call_hid)\<close>; a hit is read with
  \<open>get_data(call_history_id=call_hid)\<close> and rebuilt lazily. After a miss the source goes on
  to \<open>self.call_cache.exists_content(cid=call_cid)\<close>; \<open>InMemCallStorage\<close> defines
  no \<open>exists_content\<close> (and no \<open>get_data_content\<close>), so the attribute access is an
  \<open>AttributeError\<close>.
\<close>

definition lookup_call ::
  "nat \<Rightarrow> Storage \<Rightarrow> Op \<Rightarrow> (string \<times> ref) list \<Rightarrow> string \<Rightarrow> Versioner option
     \<Rightarrow> (error + Call option) \<times> Storage" where
  "lookup_call fuel st o1 ins pre_call_uid versioner =
     (let resolved =
        (if \<not> versioned st then Inr (Some None)
         else (case versioner of
                 None \<Rightarrow> Inl AssertionError
               | Some v \<Rightarrow>
                   (case versioner_lookup_call v (component o1) pre_call_uid of
                      None \<Rightarrow> Inr None
                    | Some lookup_outcome \<Rightarrow> Inr (Some (Some (snd lookup_outcome))))))
      in case resolved of
           Inl e \<Rightarrow> (Inl e, st)
         | Inr None \<Rightarrow> (Inr None, st)
         | Inr (Some sem_version) \<Rightarrow>
             (let call_hid = get_call_history_id o1 ins sem_version in
              case InMemCallStorage_exists_kw (call_cache (calls st)) ''hid'' call_hid of
                Inl e \<Rightarrow> (Inl e, st)
              | Inr True \<Rightarrow>
                  (case InMemCallStorage_get_data (call_cache (calls st)) call_hid of
                     Inl e \<Rightarrow> (Inl e, st)
                   | Inr d \<Rightarrow>
                       (case get_call_from_data fuel st d True of
                          (Inl e, st1) \<Rightarrow> (Inl e, st1)
                        | (Inr c, st1) \<Rightarrow> (Inr (Some c), st1)))
              | Inr False \<Rightarrow> (Inl AttributeError, st)))"

subsection \<open>Constructing and destructing refs, calling an op\<close>

text \<open>The decimal digits of a number, for the slot names \<open>elts_0\<close>, \<open>elts_1\<close>, ...\<close>

fun string_of_nat :: "nat \<Rightarrow> string" where
  "string_of_nat n =
     (if n < 10 then [char_of (48 + n)]
      else string_of_nat (n div 10) @ [char_of (48 + n mod 10)])"

definition get_struct_builder :: "Model \<Rightarrow> tp \<Rightarrow> error + Op" where
  "get_struct_builder M t =
     (case t of
        ListType elt \<Rightarrow> Inr (make_list M)
      | DictType k v \<Rightarrow> Inr (make_dict M)
      | AtomType \<Rightarrow> Inl NotImplementedError)"

text \<open>
  \<open>get_struct_inputs\<close>. For a list type the value is enumerated: a list gives its
  elements, a dict its keys, a string its characters, anything else is not iterable
  (\<open>TypeError\<close>). For a dict type the value must have \<open>keys()\<close> (\<open>AttributeError\<close>
  otherwise); the keys of a \<open>VDict\<close> are strings.
\<close>

definition enumerate_names :: "'a list \<Rightarrow> (string \<times> 'a) list" where
  "enumerate_names vs = map (\<lambda>(i, v). (''elts_'' @ string_of_nat i, v)) (enumerate 0 vs)"

definition get_struct_inputs :: "tp \<Rightarrow> pyobj \<Rightarrow> error + (string \<times> pyobj) list" where
  "get_struct_inputs t val =
     (case t of
        ListType elt \<Rightarrow>
          (case val of
             VList vs \<Rightarrow> Inr (enumerate_names vs)
           | VDict kvs \<Rightarrow> Inr (enumerate_names (map (\<lambda>kv. VStr (fst kv)) kvs))
           | VStr s \<Rightarrow> Inr (enumerate_names (map (\<lambda>c. VStr [c]) s))
           | _ \<Rightarrow> Inl TypeError)
      | DictType k v \<Rightarrow> (case val of VDict kvs \<Rightarrow> Inr kvs | _ \<Rightarrow> Inl AttributeError)
      | AtomType \<Rightarrow> Inl NotImplementedError)"

definition get_struct_tps :: "tp \<Rightarrow> (string \<times> pyobj) list \<Rightarrow> error + (string \<times> tp) list" where
  "get_struct_tps t struct_inputs =
     (case t of
        ListType elt \<Rightarrow>
          Inr (map (\<lambda>i. (''elts_'' @ string_of_nat i, elt)) [0 ..< length struct_inputs])
      | DictType k v \<Rightarrow> Inr (map (\<lambda>kv. (fst kv, v)) struct_inputs)
      | AtomType \<Rightarrow> Inl NotImplementedError)"

text \<open>\<open>bound_arguments.args\<close> and \<open>bound_arguments.kwargs\<close>.\<close>

record BoundArguments =
  ba_args :: "pyobj list"
  ba_kwargs :: "(string \<times> pyobj) list"

text \<open>
  \<open>changed_inputs\<close>: the names whose content id after the call differs from the one
  before; \<open>cids_after[k]\<close> is a \<open>KeyError\<close> for a name that is missing afterwards.
\<close>

fun changed_inputs :: "(string \<times> string) list \<Rightarrow> (string \<times> string) list \<Rightarrow> error + string list" where
  "changed_inputs [] cids_after = Inr []"
| "changed_inputs (kc # rest) cids_after =
     (case map_of cids_after (fst kc) of
        None \<Rightarrow> Inl KeyError
      | Some c' \<Rightarrow>
          (case changed_inputs rest cids_after of
             Inl e \<Rightarrow> Inl e
           | Inr ks \<Rightarrow> Inr (if snd kc \<noteq> c' then fst kc # ks else ks)))"

definition cids_of :: "(string \<times> ref) list \<Rightarrow> (string \<times> string) list" where
  "cids_of refs = map (\<lambda>kr. (fst kr, cid (snd kr))) refs"

text \<open>
  \<open>call_internal\<close> calls \<open>construct\<close> and \<open>destruct\<close>, which call \<open>call_internal\<close> for the
  structural ops. The recursion is bounded by a fuel argument, the depth to which
  calls of \<open>call_internal\<close> may nest: the functions below take the \<open>call_internal\<close> of
  the next depth as their argument \<open>ci\<close> (and the loops take the function they apply to
  each element), and \<open>call_internal\<close> itself is defined by recursion on the fuel.
\<close>

type_synonym call_result = "(error + (string \<times> ref) list \<times> Call \<times> Call list) \<times> Storage"

type_synonym ref_result = "(error + ref \<times> Call list) \<times> Storage"

type_synonym call_internal_fn =
  "Storage \<Rightarrow> Op \<Rightarrow> (string \<times> pyobj) list \<Rightarrow> (string \<times> tp) list \<Rightarrow> BoundArguments option
     \<Rightarrow> call_result"

definition construct_with :: "call_internal_fn \<Rightarrow> Model \<Rightarrow> Storage \<Rightarrow> tp \<Rightarrow> pyobj \<Rightarrow> ref_result" where
  "construct_with ci M st t val =
     (case val of
        VRef r \<Rightarrow> (Inr (r, []), st)
      | _ \<Rightarrow>
        (case t of
           AtomType \<Rightarrow> (Inr (wrap_atom M val None, []), st)
         | _ \<Rightarrow>
           (case get_struct_builder M t of
              Inl e \<Rightarrow> (Inl e, st)
            | Inr struct_builder \<Rightarrow>
              (case get_struct_inputs t val of
                 Inl e \<Rightarrow> (Inl e, st)
               | Inr struct_inputs \<Rightarrow>
                 (case get_struct_tps t struct_inputs of
                    Inl e \<Rightarrow> (Inl e, st)
                  | Inr struct_tps \<Rightarrow>
                    (case ci st struct_builder struct_inputs struct_tps None of
                       (Inl e, st1) \<Rightarrow> (Inl e, st1)
                     | (Inr (res, main_call, cs), st1) \<Rightarrow>
                         (case outputs main_call of
                            [] \<Rightarrow> (Inl IndexError, st1)
                          | kr # rest \<Rightarrow> (Inr (snd kr, cs @ [main_call]), st1))))))))"

text \<open>
  The loop \<open>for k, v in storage_inputs.items()\<close>, with \<open>constr\<close> for \<open>self.construct\<close>;
  \<open>storage_tps[k]\<close> is a \<open>KeyError\<close> for a name without a type.
\<close>

fun construct_inputs ::
  "(Storage \<Rightarrow> tp \<Rightarrow> pyobj \<Rightarrow> ref_result) \<Rightarrow> Storage \<Rightarrow> (string \<times> pyobj) list
     \<Rightarrow> (string \<times> tp) list \<Rightarrow> (error + (string \<times> ref) list \<times> Call list) \<times> Storage" where
  "construct_inputs constr st [] storage_tps = (Inr ([], []), st)"
| "construct_inputs constr st (kv # rest) storage_tps =
     (case map_of storage_tps (fst kv) of
        None \<Rightarrow> (Inl KeyError, st)
      | Some t \<Rightarrow>
        (case constr st t (snd kv) of
           (Inl e, st1) \<Rightarrow> (Inl e, st1)
         | (Inr (r, struct_calls), st1) \<Rightarrow>
           (case construct_inputs constr st1 rest storage_tps of
              (Inl e, st2) \<Rightarrow> (Inl e, st2)
            | (Inr (wrapped, cs), st2) \<Rightarrow> (Inr ((fst kv, r) # wrapped, struct_calls @ cs), st2))))"

text \<open>
  The loops of \<open>destruct\<close> over the children of a list and of a dict, with \<open>destr\<close> for
  the recursive call of \<open>destruct\<close>.
\<close>

fun destruct_list ::
  "call_internal_fn \<Rightarrow> (Storage \<Rightarrow> ref \<Rightarrow> tp \<Rightarrow> ref_result) \<Rightarrow> Model \<Rightarrow> Storage \<Rightarrow> ref \<Rightarrow> tp \<Rightarrow> tp
     \<Rightarrow> nat \<Rightarrow> ref list \<Rightarrow> (error + ref list \<times> Call list) \<times> Storage" where
  "destruct_list ci destr M st r t elt i [] = (Inr ([], []), st)"
| "destruct_list ci destr M st r t elt i (e # es) =
     (case ci st (get_list_item M)
             [(''obj'', VRef r), (''attr'', VInt (int i))]
             [(''obj'', t), (''attr'', AtomType)] None of
        (Inl err, st1) \<Rightarrow> (Inl err, st1)
      | (Inr (getitem_dict, item_call, cs), st1) \<Rightarrow>
        (case map_of getitem_dict ''output_0'' of
           None \<Rightarrow> (Inl KeyError, st1)
         | Some new_elt \<Rightarrow>
           (case destr st1 new_elt elt of
              (Inl err, st2) \<Rightarrow> (Inl err, st2)
            | (Inr (new_elt', elt_subcalls), st2) \<Rightarrow>
              (case destruct_list ci destr M st2 r t elt (Suc i) es of
                 (Inl err, st3) \<Rightarrow> (Inl err, st3)
               | (Inr (new_elts, destr_calls), st3) \<Rightarrow>
                   (Inr (new_elt' # new_elts, item_call # elt_subcalls @ destr_calls), st3)))))"

fun destruct_dict ::
  "call_internal_fn \<Rightarrow> (Storage \<Rightarrow> ref \<Rightarrow> tp \<Rightarrow> ref_result) \<Rightarrow> Model \<Rightarrow> Storage \<Rightarrow> ref \<Rightarrow> tp \<Rightarrow> tp
     \<Rightarrow> tp \<Rightarrow> (string \<times> ref) list \<Rightarrow> (error + (string \<times> ref) list \<times> Call list) \<times> Storage" where
  "destruct_dict ci destr M st r t tk tv [] = (Inr ([], []), st)"
| "destruct_dict ci destr M st r t tk tv (kv # kvs) =
     (case ci st (get_dict_value M)
             [(''obj'', VRef r), (''key'', VStr (fst kv))]
             [(''obj'', t), (''key'', tk)] None of
        (Inl err, st1) \<Rightarrow> (Inl err, st1)
      | (Inr (getvalue_dict, value_call, cs), st1) \<Rightarrow>
        (case map_of getvalue_dict ''output_0'' of
           None \<Rightarrow> (Inl KeyError, st1)
         | Some new_v \<Rightarrow>
           (case destr st1 new_v tv of
              (Inl err, st2) \<Rightarrow> (Inl err, st2)
            | (Inr (new_v', v_subcalls), st2) \<Rightarrow>
              (case destruct_dict ci destr M st2 r t tk tv kvs of
                 (Inl err, st3) \<Rightarrow> (Inl err, st3)
               | (Inr (new_items, destr_calls), st3) \<Rightarrow>
                   (Inr ((fst kv, new_v') # new_items, value_call # v_subcalls @ destr_calls),
                    st3)))))"

text \<open>
  \<open>destruct\<close>, by recursion on a fuel of its own (the ref it recurses on is the output of
  a structural call).
\<close>

primrec destruct_with ::
  "call_internal_fn \<Rightarrow> nat \<Rightarrow> Model \<Rightarrow> Storage \<Rightarrow> ref \<Rightarrow> tp \<Rightarrow> ref_result" where
  "destruct_with ci 0 M = (\<lambda>st r t. (Inl OutOfFuel, st))"
| "destruct_with ci (Suc fuel) M = (\<lambda>st r t.
     (case r of
        AtomRef c h m v \<Rightarrow> (Inr (r, []), st)
      | ListRef c h m es \<Rightarrow>
          (case t of
             ListType elt \<Rightarrow>
               (case destruct_list ci (destruct_with ci fuel M) M st r t elt 0 es of
                  (Inl e, st1) \<Rightarrow> (Inl e, st1)
                | (Inr (new_elts, destr_calls), st1) \<Rightarrow>
                    (Inr (ListRef c h True new_elts, destr_calls), st1))
           | _ \<Rightarrow> (Inl AssertionError, st))
      | DictRef c h m kvs \<Rightarrow>
          (case t of
             DictType tk tv \<Rightarrow>
               (case destruct_dict ci (destruct_with ci fuel M) M st r t tk tv kvs of
                  (Inl e, st1) \<Rightarrow> (Inl e, st1)
                | (Inr (new_items, destr_calls), st1) \<Rightarrow>
                    (Inr (DictRef c h True new_items, destr_calls), st1))
           | _ \<Rightarrow> (Inl AssertionError, st))))"

text \<open>The loop \<open>for k, v in outputs_dict.items()\<close> that wraps the outputs.\<close>

definition wrap_output ::
  "(Storage \<Rightarrow> tp \<Rightarrow> pyobj \<Rightarrow> ref_result) \<Rightarrow> (Storage \<Rightarrow> ref \<Rightarrow> tp \<Rightarrow> ref_result) \<Rightarrow> Model
     \<Rightarrow> Storage \<Rightarrow> string \<times> pyobj \<Rightarrow> (string \<times> tp) list \<Rightarrow> (string \<times> string) list \<Rightarrow> ref_result" where
  "wrap_output constr destr M st kv output_tps output_history_ids =
     (case snd kv of
        VRef r \<Rightarrow>
          (case map_of output_history_ids (fst kv) of
             None \<Rightarrow> (Inl KeyError, st)
           | Some h \<Rightarrow> (Inr (with_hid r h, []), st))
      | v \<Rightarrow>
          (case map_of output_tps (fst kv) of
             None \<Rightarrow> (Inl KeyError, st)
           | Some AtomType \<Rightarrow>
               (case map_of output_history_ids (fst kv) of
                  None \<Rightarrow> (Inl KeyError, st)
                | Some h \<Rightarrow> (Inr (wrap_atom M v (Some h), []), st))
           | Some t \<Rightarrow>
               (case constr st t v of
                  (Inl e, st1) \<Rightarrow> (Inl e, st1)
                | (Inr (start, cs), st1) \<Rightarrow>
                    (case map_of output_history_ids (fst kv) of
                       None \<Rightarrow> (Inl KeyError, st1)
                     | Some h \<Rightarrow> destr st1 (with_hid start h) t))))"

fun wrap_outputs ::
  "(Storage \<Rightarrow> tp \<Rightarrow> pyobj \<Rightarrow> ref_result) \<Rightarrow> (Storage \<Rightarrow> ref \<Rightarrow> tp \<Rightarrow> ref_result) \<Rightarrow> Model
     \<Rightarrow> Storage \<Rightarrow> (string \<times> pyobj) list \<Rightarrow> (string \<times> tp) list \<Rightarrow> (string \<times> string) list
     \<Rightarrow> (error + (string \<times> ref) list \<times> Call list) \<times> Storage" where
  "wrap_outputs constr destr M st [] output_tps output_history_ids = (Inr ([], []), st)"
| "wrap_outputs constr destr M st (kv # rest) output_tps output_history_ids =
     (case wrap_output constr destr M st kv output_tps output_history_ids of
        (Inl e, st2) \<Rightarrow> (Inl e, st2)
      | (Inr (final, output_calls_for_output), st2) \<Rightarrow>
          (case wrap_outputs constr destr M st2 rest output_tps output_history_ids of
             (Inl e, st3) \<Rightarrow> (Inl e, st3)
           | (Inr (wrapped, output_calls), st3) \<Rightarrow>
               (Inr ((fst kv, final) # wrapped, output_calls_for_output @ output_calls), st3)))"

text \<open>
  What a call can change of its inputs. The function is applied to \<open>self.unwrap(args)\<close>
  and \<open>self.unwrap(kwargs)\<close>, and \<open>raw_values\<close> is made by another \<open>unwrap\<close>, of the wrapped
  inputs. \<open>unwrap\<close> builds a new list or dict for every list, dict and container ref it
  walks through, gives for an atom ref in memory the object that the ref holds, loads
  the object of an atom ref that is not in memory afresh, and returns anything else as
  it is (of these, \<open>None\<close>, numbers and strings cannot be changed in place). So the
  function shares with \<open>raw_values\<close> the objects held by the atom refs in memory among
  its arguments; a list or dict passed as a plain value reaches it as a copy.
  \<open>shares v\<close> says whether the argument \<open>v\<close> reaches the function with such an object.
\<close>

fun shares :: "pyobj \<Rightarrow> bool"
  and shares_ref :: "ref \<Rightarrow> bool"
  and shares_list :: "pyobj list \<Rightarrow> bool"
  and shares_items :: "(string \<times> pyobj) list \<Rightarrow> bool"
  and shares_refs :: "ref list \<Rightarrow> bool"
  and shares_ref_items :: "(string \<times> ref) list \<Rightarrow> bool"
  where
  "shares (VRef r) = shares_ref r"
| "shares (VList vs) = shares_list vs"
| "shares (VDict kvs) = shares_items kvs"
| "shares VNone = False"
| "shares (VInt i) = False"
| "shares (VStr s) = False"
| "shares (VIgnore v) = True"
| "shares_ref (AtomRef c h m v) = m"
| "shares_ref (ListRef c h m es) = shares_refs es"
| "shares_ref (DictRef c h m kvs) = shares_ref_items kvs"
| "shares_list [] = False"
| "shares_list (v # vs) = (shares v \<or> shares_list vs)"
| "shares_items [] = False"
| "shares_items (kv # kvs) = (shares (snd kv) \<or> shares_items kvs)"
| "shares_refs [] = False"
| "shares_refs (r # rs) = (shares_ref r \<or> shares_refs rs)"
| "shares_ref_items [] = False"
| "shares_ref_items (kr # krs) = (shares_ref (snd kr) \<or> shares_ref_items krs)"

text \<open>
  \<open>shared_values\<close>: the unwrapped inputs whose argument shares an object with the
  function. \<open>raw_values\<close> after the call: such an input is as the function left it
  (\<open>left\<close>, the second component of \<open>f\<close>), every other input is as it was before the
  call.
\<close>

definition shared_values ::
  "(string \<times> pyobj) list \<Rightarrow> (string \<times> pyobj) list \<Rightarrow> (string \<times> pyobj) list" where
  "shared_values storage_inputs raw_values =
     filter (\<lambda>kv. case map_of storage_inputs (fst kv) of None \<Rightarrow> False | Some a \<Rightarrow> shares a)
       raw_values"

definition raw_values_after_call ::
  "(string \<times> pyobj) list \<Rightarrow> (string \<times> pyobj) list \<Rightarrow> (string \<times> pyobj) list
     \<Rightarrow> (string \<times> pyobj) list" where
  "raw_values_after_call storage_inputs raw_values left =
     map (\<lambda>kv. (fst kv,
                 case map_of storage_inputs (fst kv) of
                   None \<Rightarrow> snd kv
                 | Some a \<Rightarrow>
                     if shares a
                     then (case map_of left (fst kv) of None \<Rightarrow> snd kv | Some w \<Rightarrow> w)
                     else snd kv))
       raw_values"

text \<open>
  \<open>execute\<close>: the part of \<open>call_internal\<close> under "execute the call if it doesn't exist".
  A structural op is applied to the wrapped inputs. Any other op is applied to the
  unwrapped arguments; unless it allows side effects, the unwrapped inputs are wrapped
  again after the call and their content ids compared with those before it.
  \<open>fuel\<close> bounds the loading of detached refs by \<open>unwrap\<close>.
\<close>

definition execute ::
  "(Storage \<Rightarrow> tp \<Rightarrow> pyobj \<Rightarrow> ref_result) \<Rightarrow> nat \<Rightarrow> Storage \<Rightarrow> Op \<Rightarrow> (string \<times> pyobj) list
     \<Rightarrow> (string \<times> ref) list \<Rightarrow> (string \<times> tp) list \<Rightarrow> BoundArguments option
     \<Rightarrow> (error + pyobj) \<times> Storage" where
  "execute constr fuel st o1 storage_inputs wrapped_inputs storage_tps bound_arguments =
     (if structural o1
      then (Inr (fst (f o1 [] (map (\<lambda>kr. (fst kr, VRef (snd kr))) wrapped_inputs) [])), st)
      else
        (let cids_before = cids_of wrapped_inputs in
         case unwrap_ref_items fuel st wrapped_inputs of
           (Inl e, st1) \<Rightarrow> (Inl e, st1)
         | (Inr raw_values, st1) \<Rightarrow>
           (case bound_arguments of
              None \<Rightarrow> (Inl AttributeError, st1)
            | Some ba \<Rightarrow>
              (case unwrap_list fuel st1 (ba_args ba) of
                 (Inl e, st2) \<Rightarrow> (Inl e, st2)
               | (Inr args, st2) \<Rightarrow>
                 (case unwrap_items fuel st2 (ba_kwargs ba) of
                    (Inl e, st3) \<Rightarrow> (Inl e, st3)
                  | (Inr kwargs, st3) \<Rightarrow>
                    (let shared = shared_values storage_inputs raw_values;
                         returns = fst (f o1 args kwargs shared);
                         raw_values_after =
                           raw_values_after_call storage_inputs raw_values
                             (snd (f o1 args kwargs shared))
                     in if \<not> allow_side_effects o1 then
                       (case construct_inputs constr st3 raw_values_after storage_tps of
                          (Inl e, st4) \<Rightarrow> (Inl e, st4)
                        | (Inr (after, cs), st4) \<Rightarrow>
                          (case changed_inputs cids_before (cids_of after) of
                             Inl e \<Rightarrow> (Inl e, st4)
                           | Inr changed \<Rightarrow>
                               if 0 < length changed
                               then (Inl (ValueError_side_effects changed), st4)
                               else (Inr returns, st4)))
                     else (Inr returns, st3)))))))"

text \<open>
  The content and the semantic version of a call:
  \<open>self.cached_versioner.get_version_ids(...) if self.versioned else (None, None)\<close>.
\<close>

definition version_ids :: "Storage \<Rightarrow> string \<Rightarrow> error + (string option \<times> string option)" where
  "version_ids st pre_call_id =
     (if versioned st
      then (case cached_versioner st of
              None \<Rightarrow> Inl AttributeError
            | Some v \<Rightarrow>
                Inr (Some (fst (versioner_get_version_ids v pre_call_id)),
                     Some (snd (versioner_get_version_ids v pre_call_id))))
      else Inr (None, None))"

text \<open>
  \<open>finish\<close>: the rest of \<open>call_internal\<close>, from the version ids on. Of the versioner only
  \<open>get_version_ids\<close> is modelled; the tracer does not act on the storage.
\<close>

definition finish ::
  "(Storage \<Rightarrow> tp \<Rightarrow> pyobj \<Rightarrow> ref_result) \<Rightarrow> (Storage \<Rightarrow> ref \<Rightarrow> tp \<Rightarrow> ref_result) \<Rightarrow> Model
     \<Rightarrow> Storage \<Rightarrow> Op \<Rightarrow> (string \<times> ref) list \<Rightarrow> Call list \<Rightarrow> string \<Rightarrow> pyobj \<Rightarrow> call_result" where
  "finish constr destr M st o1 wrapped_inputs input_calls pre_call_id returns =
     (case version_ids st pre_call_id of
        Inl e \<Rightarrow> (Inl e, st)
      | Inr (content_v, semantic_v) \<Rightarrow>
          (case parse_returns o1 returns of
             Inl e \<Rightarrow> (Inl e, st)
           | Inr (outputs_dict, output_tps) \<Rightarrow>
               (let call_content_id1 = get_call_content_id o1 wrapped_inputs semantic_v;
                    call_hid1 = get_call_history_id o1 wrapped_inputs semantic_v;
                    output_history_ids =
                      get_output_history_ids o1 call_hid1 (map fst outputs_dict)
                in case wrap_outputs constr destr M st outputs_dict output_tps
                          output_history_ids of
                     (Inl e, st1) \<Rightarrow> (Inl e, st1)
                   | (Inr (wrapped_outputs, output_calls), st1) \<Rightarrow>
                       (Inr (wrapped_outputs,
                             \<lparr>call_op = o1, call_cid = call_content_id1, call_hid = call_hid1,
                              inputs = wrapped_inputs, outputs = wrapped_outputs,
                              semantic_version = semantic_v, content_version = content_v\<rparr>,
                             input_calls @ output_calls), st1))))"

text \<open>
  One level of \<open>call_internal\<close>: wrap the inputs, look the call up, return a call that
  was found, otherwise execute and finish. For a versioned storage the source reads
  \<open>self.cached_versioner.TracerCls\<close> first, an \<open>AttributeError\<close> outside a context.
\<close>

definition call_internal_step :: "call_internal_fn \<Rightarrow> nat \<Rightarrow> Model \<Rightarrow> call_internal_fn" where
  "call_internal_step ci fuel M st o1 storage_inputs storage_tps bound_arguments =
     (case construct_inputs (construct_with ci M) st storage_inputs storage_tps of
        (Inl e, st1) \<Rightarrow> (Inl e, st1)
      | (Inr (wrapped_inputs, input_calls), st1) \<Rightarrow>
          if versioned st1 \<and> cached_versioner st1 = None then (Inl AttributeError, st1)
          else
            (let pre_call_id = get_pre_call_id o1 wrapped_inputs in
             case lookup_call fuel st1 o1 wrapped_inputs pre_call_id
                    (if versioned st1 then cached_versioner st1 else None) of
               (Inl e, st2) \<Rightarrow> (Inl e, st2)
             | (Inr (Some main_call), st2) \<Rightarrow>
                 (Inr (outputs main_call, main_call, input_calls), st2)
             | (Inr None, st2) \<Rightarrow>
                 (case execute (construct_with ci M) fuel st2 o1 storage_inputs wrapped_inputs
                         storage_tps bound_arguments of
                    (Inl e, st3) \<Rightarrow> (Inl e, st3)
                  | (Inr returns, st3) \<Rightarrow>
                      finish (construct_with ci M) (destruct_with ci fuel M) M st3 o1
                        wrapped_inputs input_calls pre_call_id returns)))"

primrec call_internal :: "nat \<Rightarrow> Model \<Rightarrow> call_internal_fn" where
  "call_internal 0 M = (\<lambda>st o1 storage_inputs storage_tps bound_arguments. (Inl OutOfFuel, st))"
| "call_internal (Suc fuel) M = call_internal_step (call_internal fuel M) fuel M"

definition construct :: "nat \<Rightarrow> Model \<Rightarrow> Storage \<Rightarrow> tp \<Rightarrow> pyobj \<Rightarrow> ref_result" where
  "construct fuel M = construct_with (call_internal fuel M) M"

definition destruct :: "nat \<Rightarrow> Model \<Rightarrow> Storage \<Rightarrow> ref \<Rightarrow> tp \<Rightarrow> ref_result" where
  "destruct fuel M = destruct_with (call_internal fuel M) fuel M"

text \<open>\<open>unwrap\<close> of the storage.\<close>

definition Storage_unwrap :: "nat \<Rightarrow> Storage \<Rightarrow> pyobj \<Rightarrow> (error + pyobj) \<times> Storage" where
  "Storage_unwrap fuel st v = unwrap fuel st v"


subsection \<open>Parsing the arguments\<close>

text \<open>
  \<open>parse_args\<close> works on \<open>bound_arguments.arguments\<close>, the ordered dict that
  \<open>sig.bind(*args, **kwargs)\<close> followed by \<open>apply_defaults()\<close> makes of the arguments: the
  value of the \<open>*args\<close> parameter is a tuple (a \<open>VList\<close>), that of the \<open>**kwargs\<close> parameter a
  dict. A dict that is filled by assignments is \<open>dict_update_all\<close>.
\<close>

definition dict_update_all :: "(string \<times> 'a) list \<Rightarrow> (string \<times> 'a) list \<Rightarrow> (string \<times> 'a) list" where
  "dict_update_all d new = foldl (\<lambda>acc kv. AList.update (fst kv) (snd kv) acc) d new"

definition var_positional :: "Parameter list \<Rightarrow> Parameter option" where
  "var_positional sig =
     (case filter (\<lambda>p. param_kind p = VAR_POSITIONAL) sig of [] \<Rightarrow> None | p # ps \<Rightarrow> Some p)"

definition var_keyword :: "Parameter list \<Rightarrow> Parameter option" where
  "var_keyword sig =
     (case filter (\<lambda>p. param_kind p = VAR_KEYWORD) sig of [] \<Rightarrow> None | p # ps \<Rightarrow> Some p)"

definition default_values :: "Parameter list \<Rightarrow> (string \<times> default_value) list" where
  "default_values sig =
     map (\<lambda>p. (param_name p, param_default p)) (filter (\<lambda>p. param_default p \<noteq> Empty) sig)"

definition unignore :: "pyobj \<Rightarrow> pyobj" where
  "unignore a = (case a of VIgnore x \<Rightarrow> x | _ \<Rightarrow> a)"

definition is_ignored :: "pyobj \<Rightarrow> bool" where
  "is_ignored a = (case a of VIgnore x \<Rightarrow> True | _ \<Rightarrow> False)"

text \<open>
  One turn of the loop over the arguments: the value that replaces the argument in
  \<open>bound_arguments\<close>, and the storage inputs and annotations it adds.
\<close>

definition parse_arg ::
  "nat \<Rightarrow> Parameter list \<Rightarrow> Storage \<Rightarrow> string \<Rightarrow> pyobj
     \<Rightarrow> (error + pyobj \<times> (string \<times> pyobj) list \<times> (string \<times> tp) list) \<times> Storage" where
  "parse_arg fuel sig st k v =
     (let regular =
        (case map_of (map (\<lambda>p. (param_name p, param_annotation p)) sig) k of
           None \<Rightarrow> (Inl KeyError, st)
         | Some a \<Rightarrow> (Inr (v, [(k, v)], [(k, a)]), st))
      in
      if var_positional sig \<noteq> None \<and> k = param_name (the (var_positional sig)) then
        (case v of
           VList vs \<Rightarrow>
             (let new_v = map unignore vs;
                  names = map (\<lambda>i. k @ ''_'' @ string_of_nat i) [0 ..< length new_v];
                  kept = filter (\<lambda>nv. \<not> is_ignored (snd (snd nv))) (zip names (zip new_v vs))
              in (Inr (VList new_v,
                       dict_update_all [] (map (\<lambda>nv. (fst nv, fst (snd nv))) kept),
                       dict_update_all []
                         (map (\<lambda>nv. (fst nv, param_annotation (the (var_positional sig)))) kept)),
                  st))
         | _ \<Rightarrow> (Inl TypeError, st))
      else if var_keyword sig \<noteq> None \<and> k = param_name (the (var_keyword sig)) then
        (case v of
           VDict kvs \<Rightarrow>
             (let kept = filter (\<lambda>kv. \<not> is_ignored (snd kv)) kvs
              in (Inr (VDict (map (\<lambda>kv. (fst kv, unignore (snd kv))) kvs),
                       dict_update_all [] kept,
                       dict_update_all []
                         (map (\<lambda>kv. (fst kv, param_annotation (the (var_keyword sig)))) kept)),
                  st))
         | _ \<Rightarrow> (Inl AttributeError, st))
      else
        (case v of
           VIgnore x \<Rightarrow> (Inr (x, [], []), st)
         | _ \<Rightarrow>
           (case map_of (default_values sig) k of
              Some (NewArgDefault d) \<Rightarrow>
                (case v of
                   VRef r \<Rightarrow>
                     (case unwrap fuel st v of
                        (Inl e, st1) \<Rightarrow> (Inl e, st1)
                      | (Inr u, st1) \<Rightarrow>
                          if u = d then (Inr (d, [], []), st1)
                          else if v = d then (Inr (d, [], []), st1)
                          else (case regular of (x, st2) \<Rightarrow> (x, st1)))
                 | _ \<Rightarrow> if v = d then (Inr (d, [], []), st) else regular)
            | _ \<Rightarrow> regular)))"

fun parse_args_loop ::
  "nat \<Rightarrow> Parameter list \<Rightarrow> Storage \<Rightarrow> (string \<times> pyobj) list
     \<Rightarrow> (error + (string \<times> pyobj) list \<times> (string \<times> pyobj) list \<times> (string \<times> tp) list) \<times> Storage" where
  "parse_args_loop fuel sig st [] = (Inr ([], [], []), st)"
| "parse_args_loop fuel sig st (kv # rest) =
     (case parse_arg fuel sig st (fst kv) (snd kv) of
        (Inl e, st1) \<Rightarrow> (Inl e, st1)
      | (Inr (new_v, ins, anns), st1) \<Rightarrow>
          (case parse_args_loop fuel sig st1 rest of
             (Inl e, st2) \<Rightarrow> (Inl e, st2)
           | (Inr (arguments, storage_inputs, storage_annotations), st2) \<Rightarrow>
               (Inr ((fst kv, new_v) # arguments,
                     dict_update_all ins storage_inputs,
                     dict_update_all anns storage_annotations), st2)))"

text \<open>
  \<open>BoundArguments.args\<close> and \<open>BoundArguments.kwargs\<close> of \<open>inspect\<close>: the positional
  parameters up to the first one without an argument, and the remaining ones.
\<close>

fun bound_args :: "Parameter list \<Rightarrow> (string \<times> pyobj) list \<Rightarrow> pyobj list" where
  "bound_args [] a = []"
| "bound_args (p # ps) a =
     (if param_kind p = VAR_KEYWORD \<or> param_kind p = KEYWORD_ONLY then []
      else (case map_of a (param_name p) of
              None \<Rightarrow> []
            | Some v \<Rightarrow>
                (if param_kind p = VAR_POSITIONAL
                 then (case v of VList vs \<Rightarrow> vs | _ \<Rightarrow> [])
                 else [v]) @ bound_args ps a))"

fun bound_kwargs :: "bool \<Rightarrow> Parameter list \<Rightarrow> (string \<times> pyobj) list \<Rightarrow> (string \<times> pyobj) list" where
  "bound_kwargs started [] a = []"
| "bound_kwargs started (p # ps) a =
     (let started1 = (started \<or> param_kind p = VAR_KEYWORD \<or> param_kind p = KEYWORD_ONLY) in
      if \<not> started1 then bound_kwargs (map_of a (param_name p) = None) ps a
      else (case map_of a (param_name p) of
              None \<Rightarrow> bound_kwargs True ps a
            | Some v \<Rightarrow>
                dict_update_all
                  (if param_kind p = VAR_KEYWORD
                   then (case v of VDict kvs \<Rightarrow> kvs | _ \<Rightarrow> [])
                   else [(param_name p, v)])
                  (bound_kwargs True ps a)))"

definition parse_args ::
  "nat \<Rightarrow> Storage \<Rightarrow> Parameter list \<Rightarrow> (string \<times> pyobj) list
     \<Rightarrow> (error + BoundArguments \<times> (string \<times> pyobj) list \<times> (string \<times> tp) list) \<times> Storage" where
  "parse_args fuel st sig arguments =
     (case parse_args_loop fuel sig st arguments of
        (Inl e, st1) \<Rightarrow> (Inl e, st1)
      | (Inr (arguments1, storage_inputs, storage_annotations), st1) \<Rightarrow>
          (Inr (\<lparr>ba_args = bound_args sig arguments1,
                 ba_kwargs = bound_kwargs False sig arguments1\<rparr>,
                storage_inputs, storage_annotations), st1))"

subsection \<open>\<open>Storage.call\<close>\<close>

text \<open>
  What \<open>call\<close> returns: one ref, or the tuple of the outputs. \<open>bind\<close> is
  \<open>sig.bind(*args, **kwargs)\<close> followed by \<open>apply_defaults()\<close> (of \<open>inspect\<close>; it raises for
  arguments that do not fit the signature), \<open>save_calls\<close> is
  \<open>__config__.get("save_calls", False)\<close>.
\<close>

datatype call_return = Single ref | Tuple "ref list"

definition Storage_call ::
  "nat \<Rightarrow> Model \<Rightarrow> (Parameter list \<Rightarrow> pyobj list \<Rightarrow> (string \<times> pyobj) list \<Rightarrow> error + (string \<times> pyobj) list)
     \<Rightarrow> Storage \<Rightarrow> Op \<Rightarrow> pyobj list \<Rightarrow> (string \<times> pyobj) list \<Rightarrow> bool
     \<Rightarrow> (error + call_return) \<times> Storage" where
  "Storage_call fuel M bind st o1 args kwargs save_calls =
     (case bind (signature o1) args kwargs of
        Inl e \<Rightarrow> (Inl e, st)
      | Inr arguments \<Rightarrow>
        (case parse_args fuel st (signature o1) arguments of
           (Inl e, st1) \<Rightarrow> (Inl e, st1)
         | (Inr (bound_arguments, storage_inputs, storage_tps), st1) \<Rightarrow>
           (case call_internal fuel M st1 o1 storage_inputs storage_tps (Some bound_arguments) of
              (Inl e, st2) \<Rightarrow> (Inl e, st2)
            | (Inr (res, main_call, cs), st2) \<Rightarrow>
                (let st3 = (if save_calls then foldl save_call (save_call st2 main_call) cs
                            else st2);
                     ord_outputs = get_ordered_outputs o1 (outputs main_call)
                 in if length ord_outputs = 1 then (Inr (Single (ord_outputs ! 0)), st3)
                    else (Inr (Tuple ord_outputs), st3)))))"

section \<open>A sample model, sample ops and a sample versioner\<close>

text \<open>
  Concrete instances on which the properties below are evaluated. The sample hash
  tells integers apart by their value and lists by their length; the ids of a call
  are spelled out from the op name and the ids of the inputs; an op returns one
  output, or one per element when its function returns a list. \<open>sample_bind\<close> binds
  positional arguments to the parameters in order.
\<close>

definition sample_hash :: "blob \<Rightarrow> string" where
  "sample_hash b =
     (case deserialize b of
        VInt i \<Rightarrow> ''int'' @ string_of_nat (nat i)
      | VList vs \<Rightarrow> ''list'' @ string_of_nat (length vs)
      | _ \<Rightarrow> ''obj'')"

definition sample_op ::
  "string \<Rightarrow> bool \<Rightarrow> bool
     \<Rightarrow> (pyobj list \<Rightarrow> (string \<times> pyobj) list \<Rightarrow> (string \<times> pyobj) list \<Rightarrow> pyobj \<times> (string \<times> pyobj) list)
     \<Rightarrow> Op" where
  "sample_op nm struct allow fn =
     \<lparr>op_name = nm,
      signature = [\<lparr>param_name = ''x'', param_kind = POSITIONAL_OR_KEYWORD,
                    param_default = Empty, param_annotation = AtomType\<rparr>],
      f = fn,
      structural = struct,
      allow_side_effects = allow,
      component = nm,
      get_pre_call_id = (\<lambda>ins. nm @ concat (map (\<lambda>kr. '','' @ hid (snd kr)) ins)),
      get_call_history_id =
        (\<lambda>ins v. ''h('' @ nm @ concat (map (\<lambda>kr. '','' @ fst kr @ ''='' @ hid (snd kr)) ins) @ '')''),
      get_call_content_id =
        (\<lambda>ins v. ''c('' @ nm @ concat (map (\<lambda>kr. '','' @ fst kr @ ''='' @ cid (snd kr)) ins) @ '')''),
      get_output_history_ids = (\<lambda>h names. map (\<lambda>k. (k, h @ ''.'' @ k)) names),
      get_ordered_outputs = map snd,
      get_ordered_output_names = map snd,
      parse_returns =
        (\<lambda>v. case v of
               VList vs \<Rightarrow>
                 Inr (map (\<lambda>iv. (''output_'' @ string_of_nat (fst iv), snd iv)) (enumerate 0 vs),
                      map (\<lambda>i. (''output_'' @ string_of_nat i, AtomType)) [0 ..< length vs])
             | _ \<Rightarrow> Inr ([(''output_0'', v)], [(''output_0'', AtomType)]))\<rparr>"

definition sample_inc :: Op where
  "sample_inc =
     sample_op ''inc'' False False
       (\<lambda>args kwargs shared. (case args of [VInt x] \<Rightarrow> VInt (x + 1) | _ \<Rightarrow> VNone, shared))"

text \<open>
  \<open>sample_bad\<close> appends \<open>0\<close> to every list it shares with the inputs, in place, and
  returns \<open>0\<close>.
\<close>

definition sample_bad :: "bool \<Rightarrow> Op" where
  "sample_bad allow =
     sample_op ''bad'' False allow
       (\<lambda>args kwargs shared.
          (VInt 0,
           map (\<lambda>kv. (fst kv, case snd kv of VList xs \<Rightarrow> VList (xs @ [VInt 0]) | v \<Rightarrow> v))
             shared))"

text \<open>
  \<open>sample_mistyped\<close> allows side effects and is annotated to return a list, but its
  function returns \<open>0\<close>. \<open>sample_tick\<close> has no parameter and no output.
\<close>

definition sample_mistyped :: Op where
  "sample_mistyped =
     (sample_op ''mistyped'' False True (\<lambda>args kwargs shared. (VInt 0, shared)))
       \<lparr>parse_returns := (\<lambda>v. Inr ([(''output_0'', v)], [(''output_0'', ListType AtomType)]))\<rparr>"

definition sample_tick :: Op where
  "sample_tick =
     (sample_op ''tick'' False False (\<lambda>args kwargs shared. (VNone, shared)))
       \<lparr>signature := [], parse_returns := (\<lambda>v. Inr ([], []))\<rparr>"

definition sample_pair :: Op where
  "sample_pair =
     sample_op ''pair'' False False
       (\<lambda>args kwargs shared. (case args of [v] \<Rightarrow> VList [v, v] | _ \<Rightarrow> VList [], shared))"

definition sample_struct_op :: "string \<Rightarrow> Op" where
  "sample_struct_op nm =
     sample_op nm True False
       (\<lambda>args kwargs shared.
          (VRef (ListRef (''l'' @ concat (map (\<lambda>kv. case snd kv of VRef r \<Rightarrow> cid r | _ \<Rightarrow> []) kwargs))
                   [] True
                   (concat (map (\<lambda>kv. case snd kv of VRef r \<Rightarrow> [r] | _ \<Rightarrow> []) kwargs))),
           shared))"

definition sample_model :: Model where
  "sample_model =
     \<lparr>get_content_hash = sample_hash,
      new_hid = (\<lambda>v. ''new.'' @ sample_hash (serialize v)),
      make_list = sample_struct_op ''__make_list__'',
      make_dict = sample_struct_op ''__make_dict__'',
      get_list_item = sample_struct_op ''__get_list_item__'',
      get_dict_value = sample_struct_op ''__get_dict_value__''\<rparr>"

definition sample_bind ::
  "Parameter list \<Rightarrow> pyobj list \<Rightarrow> (string \<times> pyobj) list \<Rightarrow> error + (string \<times> pyobj) list" where
  "sample_bind sig args kwargs =
     (if length args = length sig \<and> kwargs = [] then Inr (zip (map param_name sig) args)
      else Inl TypeError)"

text \<open>A versioner that knows no call, and a versioned storage inside a context.\<close>

definition declining_versioner :: Versioner where
  "declining_versioner =
     \<lparr>versioner_lookup_call = (\<lambda>c p. None), versioner_get_version_ids = (\<lambda>p. (''cv'', ''sv''))\<rparr>"

definition versioned_storage :: Storage where
  "versioned_storage = Storage_enter declining_versioner (Storage_init\<lparr>versioned := True\<rparr>)"

text \<open>
  The call that a first execution of \<open>sample_inc\<close> on \<open>41\<close> puts on record, and a call of
  \<open>sample_inc\<close> on a ref with content id \<open>int3\<close> and history id \<open>hx\<close>.
\<close>

definition sample_call :: "ref \<Rightarrow> pyobj \<Rightarrow> Call" where
  "sample_call x y =
     \<lparr>call_op = sample_inc,
      call_cid = get_call_content_id sample_inc [(''x'', x)] None,
      call_hid = get_call_history_id sample_inc [(''x'', x)] None,
      inputs = [(''x'', x)],
      outputs =
        [(''output_0'',
          wrap_atom sample_model y
            (Some (get_call_history_id sample_inc [(''x'', x)] None @ ''.output_0'')))],
      semantic_version = None,
      content_version = None\<rparr>"

definition recorded_inc_41 :: Storage where
  "recorded_inc_41 =
     save_call Storage_init (sample_call (wrap_atom sample_model (VInt 41) None) (VInt 42))"

definition recorded_inc_3 :: Storage where
  "recorded_inc_3 =
     save_call Storage_init (sample_call (AtomRef ''int3'' ''hx'' True (VInt 3)) (VInt 4))"

text \<open>A storage in which a call of \<open>sample_tick\<close> has been saved.\<close>

definition tick_call :: Call where
  "tick_call =
     \<lparr>call_op = sample_tick,
      call_cid = get_call_content_id sample_tick [] None,
      call_hid = get_call_history_id sample_tick [] None,
      inputs = [],
      outputs = [],
      semantic_version = None,
      content_version = None\<rparr>"

definition recorded_tick :: Storage where
  "recorded_tick = save_call Storage_init tick_call"

section \<open>Properties of the write-through cache\<close>

lemma SQLiteDictStorage_set_conn:
  "SQLiteDictStorage_set t key v (ConnKeyword (Some conn)) = (Inr (), AList.update key v t)"
  by (simp add: SQLiteDictStorage_set_def transaction_def)

lemma SQLiteDictStorage_set_conn_None:
  "SQLiteDictStorage_set t key v (ConnKeyword None) = (Inl TypeError, t)"
  by (simp add: SQLiteDictStorage_set_def transaction_def)

lemma commit_loop_ok:
  "set ks \<subseteq> dom c \<Longrightarrow>
   \<exists>t'. commit_loop ks c (Some conn) t = (Inr (), t') \<and>
        (\<forall>k. map_of t' k = (if k \<in> set ks then c k else map_of t k))"
proof (induction ks arbitrary: t)
  case Nil
  then show ?case by simp
next
  case (Cons key ks)
  from Cons.prems obtain v where v: "c key = Some v" by auto
  from Cons.prems have "set ks \<subseteq> dom c" by simp
  from Cons.IH [OF this, of "AList.update key v t"]
  obtain t' where t': "commit_loop ks c (Some conn) (AList.update key v t) = (Inr (), t')"
    and m: "\<forall>k. map_of t' k =
              (if k \<in> set ks then c k else map_of (AList.update key v t) k)"
    by blast
  have "\<forall>k. map_of t' k = (if k \<in> set (key # ks) then c k else map_of t k)"
    using m v by (simp add: update_conv')
  with t' v show ?case by (simp add: SQLiteDictStorage_set_conn)
qed

lemma commit_loop_snd_cache:
  "snd (CachedDictStorage_commit s conn) = s' \<Longrightarrow>
   cache s' = cache s \<and> (dirty_keys s' = dirty_keys s \<or> dirty_keys s' = [])"
  by (auto simp: CachedDictStorage_commit_def split: prod.splits sum.splits)

text \<open>
  \<open>commit()\<close> without a connection, when a key is dirty: the first \<open>set\<close> receives
  \<open>conn=None\<close> and raises \<open>TypeError\<close>; nothing is written and the dirty set is kept.
  (\<open>CachedCallStorage.commit\<close> opens a connection itself when it is given none.)
\<close>

lemma commit_without_connection_raises:
  assumes "dirty_keys s = key # ks" and "cache s key = Some v"
  shows "CachedDictStorage_commit s None = (Inl TypeError, s)"
  using assms
  by (simp add: CachedDictStorage_commit_def SQLiteDictStorage_set_conn_None)

text \<open>
  C5, as stated for every state. A cache can hold a dirty key that its dict does not
  hold: \<open>save_ref\<close> on a fresh storage marks the history id \<open>h\<close> dirty in \<open>shapes\<close>, and
  \<open>preload_shapes\<close> then replaces the dict by the rows of the (still empty) table. In
  that state \<open>commit(conn)\<close> raises \<open>KeyError\<close> at \<open>self.cache[key]\<close>, writes nothing and
  leaves the dirty set as it was.
\<close>

theorem commit_after_preload_raises:
  "dirty_keys (shapes (preload_shapes (save_ref (AtomRef ''c'' ''h'' True (VInt 1)) Storage_init)))
     = [''h''] \<and>
   raised (CachedDictStorage_commit
            (shapes (preload_shapes (save_ref (AtomRef ''c'' ''h'' True (VInt 1)) Storage_init)))
            (Some (Connection 0)))
     = Some KeyError \<and>
   dirty_keys (snd (CachedDictStorage_commit
            (shapes (preload_shapes (save_ref (AtomRef ''c'' ''h'' True (VInt 1)) Storage_init)))
            (Some (Connection 0))))
     = [''h''] \<and>
   persistent (snd (CachedDictStorage_commit
            (shapes (preload_shapes (save_ref (AtomRef ''c'' ''h'' True (VInt 1)) Storage_init)))
            (Some (Connection 0))))
     = []"
  by (simp add: preload_shapes_def Storage_init_def CachedDictStorage_init_def
        CachedDictStorage_exists_def CachedDictStorage_set_def SQLiteDictStorage_exists_def
        SQLiteDictStorage_load_all_def CachedDictStorage_commit_def raised_def Let_def)

text \<open>
  C5, amended. For a cache whose dirty keys are all held by its dict (the invariant
  of C6) and for every connection, \<open>commit(conn)\<close> returns without raising, the
  persistent table afterwards maps every dirty key to its cached value and every other
  key to what it held before, the dirty set is empty and the dict is untouched.
\<close>

theorem commit_writes_dirty_and_clears:
  assumes "dirty_subset_cache s"
  shows "\<exists>s'. CachedDictStorage_commit s (Some conn) = (Inr (), s') \<and>
           dirty_keys s' = [] \<and> cache s' = cache s \<and>
           (\<forall>k. map_of (persistent s') k =
                  (if k \<in> set (dirty_keys s) then cache s k else map_of (persistent s) k))"
proof -
  from assms have "set (dirty_keys s) \<subseteq> dom (cache s)"
    by (simp add: dirty_subset_cache_def)
  from commit_loop_ok [OF this, of conn "persistent s"]
  obtain t' where t': "commit_loop (dirty_keys s) (cache s) (Some conn) (persistent s) = (Inr (), t')"
    and m: "\<forall>k. map_of t' k =
              (if k \<in> set (dirty_keys s) then cache s k else map_of (persistent s) k)"
    by blast
  from t' have "CachedDictStorage_commit s (Some conn)
                  = (Inr (), s\<lparr>persistent := t', dirty_keys := []\<rparr>)"
    by (simp add: CachedDictStorage_commit_def)
  with m show ?thesis by simp
qed

theorem commit_writes_dirty_and_clears_witness:
  "dirty_subset_cache
     \<lparr>persistent = [(''a'', 1::int)], cache = [''a'' \<mapsto> 2, ''b'' \<mapsto> 3], dirty_keys = [''b'']\<rparr> \<and>
   (\<exists>s'. CachedDictStorage_commit
           \<lparr>persistent = [(''a'', 1::int)], cache = [''a'' \<mapsto> 2, ''b'' \<mapsto> 3],
            dirty_keys = [''b'']\<rparr> (Some (Connection 0)) = (Inr (), s') \<and>
         dirty_keys s' = [] \<and>
         map_of (persistent s') ''b'' = Some 3 \<and>
         map_of (persistent s') ''a'' = Some 1)"
proof -
  let ?s = "\<lparr>persistent = [(''a'', 1::int)], cache = [''a'' \<mapsto> 2, ''b'' \<mapsto> 3],
             dirty_keys = [''b'']\<rparr>"
  have inv: "dirty_subset_cache ?s"
    by (simp add: dirty_subset_cache_def)
  from commit_writes_dirty_and_clears [OF inv, of "Connection 0"]
  obtain s' where c: "CachedDictStorage_commit ?s (Some (Connection 0)) = (Inr (), s')"
    and d: "dirty_keys s' = []"
    and m: "\<forall>k. map_of (persistent s') k =
              (if k \<in> set (dirty_keys ?s) then cache ?s k else map_of (persistent ?s) k)"
    by blast
  from m have "map_of (persistent s') ''b'' = Some 3" by simp
  moreover from m have "map_of (persistent s') ''a'' = Some 1" by simp
  ultimately show ?thesis using inv c d by blast
qed

lemma dirty_subset_cache_init: "dirty_subset_cache (CachedDictStorage_init p)"
  by (simp add: dirty_subset_cache_def CachedDictStorage_init_def)

lemma dirty_subset_cache_get:
  "dirty_subset_cache s \<Longrightarrow> dirty_subset_cache (snd (CachedDictStorage_get s key))"
  by (auto simp: dirty_subset_cache_def CachedDictStorage_get_def
           split: option.splits sum.splits)

lemma dirty_subset_cache_set:
  "dirty_subset_cache s \<Longrightarrow> dirty_subset_cache (CachedDictStorage_set s key v)"
  by (auto simp: dirty_subset_cache_def CachedDictStorage_set_def)

lemma dirty_subset_cache_drop:
  "dirty_subset_cache s \<Longrightarrow> dirty_subset_cache (CachedDictStorage_drop s key)"
  by (auto simp: dirty_subset_cache_def CachedDictStorage_drop_def)

lemma dirty_subset_cache_commit:
  "dirty_subset_cache s \<Longrightarrow> dirty_subset_cache (snd (CachedDictStorage_commit s conn))"
  using commit_loop_snd_cache [of s conn "snd (CachedDictStorage_commit s conn)"]
  by (auto simp: dirty_subset_cache_def)

lemma dirty_subset_cache_clear: "dirty_subset_cache (CachedDictStorage_clear s)"
  by (simp add: dirty_subset_cache_def CachedDictStorage_clear_def)

lemma dirty_subset_cache_run_op:
  "dirty_subset_cache s \<Longrightarrow> dirty_subset_cache (run_op c s)"
  by (cases c)
     (simp_all add: dirty_subset_cache_get dirty_subset_cache_set dirty_subset_cache_drop
        dirty_subset_cache_commit dirty_subset_cache_clear)

lemma dirty_subset_cache_foldl:
  "dirty_subset_cache s \<Longrightarrow> dirty_subset_cache (foldl (\<lambda>s c. run_op c s) s cs)"
  by (induction cs arbitrary: s) (simp_all add: dirty_subset_cache_run_op)

text \<open>
  C6. \<open>dirty_keys \<subseteq> keys(cache)\<close> holds for a freshly constructed cache, every one of
  \<open>get\<close>, \<open>set\<close>, \<open>drop\<close>, \<open>exists\<close>, \<open>commit\<close> and \<open>clear\<close> takes a state with the
  invariant to a state with the invariant (also when the operation raises), and so the
  invariant holds after any sequence of operations on a fresh cache.
\<close>

theorem dirty_keys_subset_cache_invariant:
  "dirty_subset_cache (CachedDictStorage_init p) \<and>
   (dirty_subset_cache s \<longrightarrow> dirty_subset_cache (run_op c s)) \<and>
   dirty_subset_cache (foldl (\<lambda>s c. run_op c s) (CachedDictStorage_init p) cs)"
  by (simp add: dirty_subset_cache_init dirty_subset_cache_run_op dirty_subset_cache_foldl)

theorem dirty_keys_subset_cache_invariant_witness:
  "dirty_subset_cache (CachedDictStorage_set (CachedDictStorage_init [(''k'', 0::int)]) ''a'' 1) \<and>
   dirty_subset_cache
     (run_op (Drop ''a'') (CachedDictStorage_set (CachedDictStorage_init [(''k'', 0::int)]) ''a'' 1)) \<and>
   dirty_subset_cache
     (foldl (\<lambda>s c. run_op c s) (CachedDictStorage_init [(''k'', 0::int)])
        [Set ''a'' 1, Get ''k'', Commit (Some (Connection 0)), Set ''b'' 2, Commit None,
         Drop ''a'', Exists ''b'', Clear])"
proof -
  let ?p = "[(''k'', 0::int)]"
  let ?s = "CachedDictStorage_set (CachedDictStorage_init ?p) ''a'' 1"
  have s: "dirty_subset_cache ?s"
    by (simp add: dirty_subset_cache_def CachedDictStorage_set_def CachedDictStorage_init_def)
  from dirty_keys_subset_cache_invariant [of ?p ?s "Drop ''a''"
      "[Set ''a'' 1, Get ''k'', Commit (Some (Connection 0)), Set ''b'' 2, Commit None,
         Drop ''a'', Exists ''b'', Clear]"] s
  show ?thesis by blast
qed
section \<open>Properties of the storage\<close>

subsection \<open>Errors of the loading functions\<close>

lemma CachedDictStorage_get_error:
  "CachedDictStorage_get s k = (Inl e, s') \<Longrightarrow> e = KeyError"
  by (auto simp: CachedDictStorage_get_def SQLiteDictStorage_get_def
        split: option.splits sum.splits)

lemma load_ref_errors:
  "load_ref n st h lazy = (Inl e, st') \<Longrightarrow> e = KeyError \<or> e = OutOfFuel"
  "load_refs n st hs lazy = (Inl e, st') \<Longrightarrow> e = KeyError \<or> e = OutOfFuel"
  "load_ref_items n st khs lazy = (Inl e, st') \<Longrightarrow> e = KeyError \<or> e = OutOfFuel"
proof (induction n st h lazy and n st hs lazy and n st khs lazy
      arbitrary: e st' and e st' and e st'
      rule: load_ref_load_refs_load_ref_items.induct)
  case (2 n st h lazy)
  show ?case
  proof (cases "CachedDictStorage_get (shapes st) h")
    case (Pair a sh)
    show ?thesis
    proof (cases a)
      case (Inl e)
      with Pair "2.prems" show ?thesis by (auto dest: CachedDictStorage_get_error)
    next
      case (Inr shp)
      show ?thesis
      proof (cases shp)
        case (AtomRef c h' m v)
        with Pair Inr "2.prems" show ?thesis
          by (auto simp: Let_def split: prod.splits sum.splits if_splits
                dest: CachedDictStorage_get_error)
      next
        case (ListRef c h' m es)
        with Pair Inr "2.prems" "2.IH"(1) [OF Pair [symmetric] Inr refl ListRef]
        show ?thesis by (auto split: prod.splits sum.splits)
      next
        case (DictRef c h' m kvs)
        with Pair Inr "2.prems" "2.IH"(2) [OF Pair [symmetric] Inr refl DictRef]
        show ?thesis by (auto split: prod.splits sum.splits)
      qed
    qed
  qed
next
  case (4 n st h hs lazy)
  then show ?case by (fastforce split: prod.splits sum.splits)
next
  case (6 n st kh khs lazy)
  then show ?case by (fastforce split: prod.splits sum.splits)
qed auto

lemma get_call_from_data_errors:
  "get_call_from_data n st d lazy = (Inl e, st') \<Longrightarrow> e = KeyError \<or> e = OutOfFuel"
  by (auto simp: get_call_from_data_def split: prod.splits sum.splits
        dest: CachedDictStorage_get_error load_ref_errors(3))

lemma get_calls_from_data_errors:
  "get_calls_from_data n st ds lazy = (Inl e, st') \<Longrightarrow> e = KeyError \<or> e = OutOfFuel"
proof (induction ds arbitrary: st e st')
  case Nil
  then show ?case by simp
next
  case (Cons d ds)
  then show ?case
    by (fastforce split: prod.splits sum.splits dest: get_call_from_data_errors)
qed

lemma mget_data_rows_errors: "mget_data_rows rs hs = Inl e \<Longrightarrow> e = KeyError"
  by (induction hs arbitrary: e)
     (auto simp: call_data_of_def split: sum.splits list.splits)

lemma merge_lists_errors: "merge_lists xs ys msk = Inl e \<Longrightarrow> e = IndexError"
  by (induction xs ys msk arbitrary: e rule: merge_lists.induct)
     (auto split: sum.splits list.splits if_splits)

lemma mget_call_errors:
  "mget_call n st hs lazy = (Inl e, st') \<Longrightarrow> e = KeyError \<or> e = OutOfFuel \<or> e = IndexError"
  by (auto simp: mget_call_def Let_def InMemCallStorage_mget_data_def
        SQLiteCallStorage_mget_data_def
        split: prod.splits sum.splits
        dest: mget_data_rows_errors merge_lists_errors get_calls_from_data_errors)


text \<open>
  C8. While a context is open (\<open>in_context\<close>), \<open>get_creators\<close>, \<open>get_consumers\<close>,
  \<open>get_orphans\<close> and \<open>get_unreferenced_cids\<close> raise the error the specification calls
  \<open>NotAllowedInContext\<close> and leave the storage as it was. With no context open each
  runs its query: the two set queries return their set, \<open>get_creators\<close> and
  \<open>get_consumers\<close> are the lazy bulk load of the creator and consumer calls, which
  never raises \<open>NotAllowedInContext\<close>.
\<close>

theorem provenance_queries_guard:
  "(in_context st \<longrightarrow>
      get_creators fuel st ref_hids = (Inl NotAllowedInContext, st) \<and>
      get_consumers fuel st ref_hids = (Inl NotAllowedInContext, st) \<and>
      get_orphans st = Inl NotAllowedInContext \<and>
      get_unreferenced_cids st = Inl NotAllowedInContext) \<and>
   (\<not> in_context st \<longrightarrow>
      get_creators fuel st ref_hids =
        mget_call fuel st (get_creator_hids (call_storage (calls st)) ref_hids) True \<and>
      fst (get_creators fuel st ref_hids) \<noteq> Inl NotAllowedInContext \<and>
      get_consumers fuel st ref_hids =
        mget_call fuel st (get_consumer_hids (call_storage (calls st)) ref_hids) True \<and>
      fst (get_consumers fuel st ref_hids) \<noteq> Inl NotAllowedInContext \<and>
      get_orphans st =
        Inr (minus_list (remdups (SQLiteDictStorage_keys (persistent (shapes st))))
               (remdups (map ref_history_id (call_storage (calls st))))) \<and>
      get_unreferenced_cids st =
        Inr (minus_list
               (minus_list (remdups (SQLiteDictStorage_keys (persistent (atoms st))))
                  (remdups (map ref_content_id (call_storage (calls st)))))
               (map cid (SQLiteDictStorage_values (persistent (shapes st))))))"
proof -
  have a: "fst (mget_call fuel st hs True) \<noteq> Inl NotImplementedError_in_context" for hs
    using mget_call_errors [of fuel st hs True]
    by (cases "mget_call fuel st hs True") auto
  show ?thesis
    using a
    by (simp add: get_creators_def get_consumers_def get_orphans_def
          get_unreferenced_cids_def NotAllowedInContext_def Let_def)
qed

theorem provenance_queries_guard_witness:
  "in_context
     (Storage_enter \<lparr>versioner_lookup_call = (\<lambda>c p. None), versioner_get_version_ids = (\<lambda>p. ([], []))\<rparr>
        (Storage_init\<lparr>shapes := CachedDictStorage_init [(''h1'', AtomRef ''c1'' ''h1'' False VNone)]\<rparr>)) \<and>
   get_orphans
     (Storage_enter \<lparr>versioner_lookup_call = (\<lambda>c p. None), versioner_get_version_ids = (\<lambda>p. ([], []))\<rparr>
        (Storage_init\<lparr>shapes := CachedDictStorage_init [(''h1'', AtomRef ''c1'' ''h1'' False VNone)]\<rparr>))
     = Inl NotAllowedInContext \<and>
   \<not> in_context (Storage_init\<lparr>shapes := CachedDictStorage_init [(''h1'', AtomRef ''c1'' ''h1'' False VNone)]\<rparr>) \<and>
   get_orphans (Storage_init\<lparr>shapes := CachedDictStorage_init [(''h1'', AtomRef ''c1'' ''h1'' False VNone)]\<rparr>)
     = Inr [''h1''] \<and>
   fst (get_creators 1
          (Storage_init\<lparr>shapes := CachedDictStorage_init [(''h1'', AtomRef ''c1'' ''h1'' False VNone)]\<rparr>)
          [''h1'']) = Inr []"
proof -
  let ?v = "\<lparr>versioner_lookup_call = (\<lambda>c p. None), versioner_get_version_ids = (\<lambda>p. ([], []))\<rparr>"
  let ?st = "Storage_init\<lparr>shapes := CachedDictStorage_init [(''h1'', AtomRef ''c1'' ''h1'' False VNone)]\<rparr>"
  have i: "in_context (Storage_enter ?v ?st)"
    by (simp add: in_context_def Storage_enter_def Storage_init_def)
  have o: "\<not> in_context ?st"
    by (simp add: in_context_def Storage_init_def)
  from provenance_queries_guard [of "Storage_enter ?v ?st" 1 "[''h1'']"] i
  have 1: "get_orphans (Storage_enter ?v ?st) = Inl NotAllowedInContext" by blast
  from provenance_queries_guard [of ?st 1 "[''h1'']"] o
  have 2: "get_orphans ?st =
        Inr (minus_list (remdups (SQLiteDictStorage_keys (persistent (shapes ?st))))
               (remdups (map ref_history_id (call_storage (calls ?st)))))"
    and 3: "get_creators 1 ?st [''h1''] =
        mget_call 1 ?st (get_creator_hids (call_storage (calls ?st)) [''h1'']) True"
    by blast+
  from 2 have 4: "get_orphans ?st = Inr [''h1'']"
    by (simp add: Storage_init_def CachedDictStorage_init_def CachedCallStorage_init_def
          SQLiteDictStorage_keys_def minus_list_def)
  from 3 have 5: "fst (get_creators 1 ?st [''h1'']) = Inr []"
    by (simp add: Storage_init_def CachedCallStorage_init_def get_creator_hids_def
          mget_call_def split_list_def InMemCallStorage_mget_data_def
          SQLiteCallStorage_mget_data_def)
  from i o 1 4 5 show ?thesis by blast
qed

subsection \<open>Dropping calls\<close>

lemma drop_persistent_loop_filter:
  "drop_persistent_loop hs rs = filter (\<lambda>r. call_history_id r \<notin> set hs) rs"
proof (induction hs arbitrary: rs)
  case Nil
  then show ?case by simp
next
  case (Cons h hs)
  have "\<not> SQLiteCallStorage_exists rs h \<Longrightarrow>
        filter (\<lambda>r. call_history_id r \<notin> set hs) rs =
        filter (\<lambda>r. call_history_id r \<noteq> h \<and> call_history_id r \<notin> set hs) rs"
    by (auto simp: SQLiteCallStorage_exists_def rows_of_def filter_empty_conv
          intro!: filter_cong)
  with Cons show ?case
    by (auto simp: SQLiteCallStorage_drop_def intro!: filter_cong)
qed

lemma drop_cache_loop_closed:
  assumes "distinct hs"
    and "\<forall>h\<in>set hs. h \<in> set (call_hids c) \<longrightarrow> h \<in> set (levels0 (df c))"
  shows "drop_cache_loop hs c =
     (Inr (), \<lparr>df = filter (\<lambda>r. \<not> (call_history_id r \<in> set hs \<and>
                                    call_history_id r \<in> set (call_hids c))) (df c),
               call_hids = filter (\<lambda>h. h \<notin> set hs) (call_hids c)\<rparr>)"
  using assms
proof (induction hs arbitrary: c)
  case Nil
  then show ?case by simp
next
  case (Cons h hs)
  show ?case
  proof (cases "h \<in> set (call_hids c)")
    case False
    have "drop_cache_loop (h # hs) c = drop_cache_loop hs c"
      using False by (simp add: InMemCallStorage_exists_def)
    also have "\<dots> = (Inr (), \<lparr>df = filter (\<lambda>r. \<not> (call_history_id r \<in> set hs \<and>
                                    call_history_id r \<in> set (call_hids c))) (df c),
               call_hids = filter (\<lambda>h. h \<notin> set hs) (call_hids c)\<rparr>)"
      using Cons.prems by (intro Cons.IH) auto
    also have "\<dots> = (Inr (), \<lparr>df = filter (\<lambda>r. \<not> (call_history_id r \<in> set (h # hs) \<and>
                                    call_history_id r \<in> set (call_hids c))) (df c),
               call_hids = filter (\<lambda>x. x \<notin> set (h # hs)) (call_hids c)\<rparr>)"
      using False by (auto intro!: filter_cong)
    finally show ?thesis .
  next
    case True
    let ?c' = "\<lparr>df = filter (\<lambda>r. call_history_id r \<noteq> h) (df c),
                call_hids = removeAll h (call_hids c)\<rparr>"
    from True Cons.prems have lv: "h \<in> set (levels0 (df c))" by simp
    have d: "InMemCallStorage_drop c h = (Inr (), ?c')"
      using True lv by (simp add: InMemCallStorage_drop_def Let_def)
    have step: "drop_cache_loop (h # hs) c = drop_cache_loop hs ?c'"
      using True d by (simp add: InMemCallStorage_exists_def)
    have pre: "\<forall>x\<in>set hs. x \<in> set (call_hids ?c') \<longrightarrow> x \<in> set (levels0 (df ?c'))"
      using Cons.prems by (auto simp: levels0_def)
    have "drop_cache_loop hs ?c' =
       (Inr (), \<lparr>df = filter (\<lambda>r. \<not> (call_history_id r \<in> set hs \<and>
                                    call_history_id r \<in> set (call_hids ?c'))) (df ?c'),
               call_hids = filter (\<lambda>h. h \<notin> set hs) (call_hids ?c')\<rparr>)"
      using Cons.prems pre by (intro Cons.IH) auto
    also have "\<dots> = (Inr (), \<lparr>df = filter (\<lambda>r. \<not> (call_history_id r \<in> set (h # hs) \<and>
                                    call_history_id r \<in> set (call_hids c))) (df c),
               call_hids = filter (\<lambda>x. x \<notin> set (h # hs)) (call_hids c)\<rparr>)"
      using True by (auto simp: removeAll_filter_not_eq intro!: filter_cong)
    finally show ?thesis using step by simp
  qed
qed

text \<open>
  \<open>drop_calls\<close> with \<open>delete_dependents = False\<close>, when it does not raise. If none of the
  given history ids exists, in the call cache or in the call table, it returns and the
  storage is what it was. In general, provided every given id that the cache holds
  indexes a row of the cache's frame, it returns; the cache loses the rows and the ids
  of the given calls it held, the table loses the rows of the given calls, and every
  other component of the storage is unchanged.
\<close>

lemma drop_calls_closed_form:
  "((\<forall>h\<in>set (given_hids given). \<not> exists_call st h) \<longrightarrow>
      drop_calls fuel st given False = (Inr (), st)) \<and>
   ((\<forall>h\<in>set (given_hids given). h \<in> set (call_hids (call_cache (calls st))) \<longrightarrow>
        h \<in> set (levels0 (df (call_cache (calls st))))) \<longrightarrow>
      drop_calls fuel st given False =
        (Inr (),
         st\<lparr>calls := (calls st)
              \<lparr>call_cache :=
                 \<lparr>df = filter (\<lambda>r. \<not> (call_history_id r \<in> set (given_hids given) \<and>
                                       call_history_id r \<in> set (call_hids (call_cache (calls st)))))
                         (df (call_cache (calls st))),
                  call_hids = filter (\<lambda>h. h \<notin> set (given_hids given))
                                (call_hids (call_cache (calls st)))\<rparr>,
               call_storage := filter (\<lambda>r. call_history_id r \<notin> set (given_hids given))
                                 (call_storage (calls st))\<rparr>\<rparr>))"
proof (intro conjI impI)
  let ?hs = "remdups (given_hids given)"
  let ?c = "call_cache (calls st)"
  assume cons: "\<forall>h\<in>set (given_hids given). h \<in> set (call_hids ?c) \<longrightarrow> h \<in> set (levels0 (df ?c))"
  then have "\<forall>h\<in>set ?hs. h \<in> set (call_hids ?c) \<longrightarrow> h \<in> set (levels0 (df ?c))"
    by simp
  from drop_cache_loop_closed [OF distinct_remdups this]
  show "drop_calls fuel st given False =
        (Inr (),
         st\<lparr>calls := (calls st)
              \<lparr>call_cache :=
                 \<lparr>df = filter (\<lambda>r. \<not> (call_history_id r \<in> set (given_hids given) \<and>
                                       call_history_id r \<in> set (call_hids ?c))) (df ?c),
                  call_hids = filter (\<lambda>h. h \<notin> set (given_hids given)) (call_hids ?c)\<rparr>,
               call_storage := filter (\<lambda>r. call_history_id r \<notin> set (given_hids given))
                                 (call_storage (calls st))\<rparr>\<rparr>)"
    by (simp add: drop_calls_def Let_def drop_persistent_loop_filter)
next
  let ?hs = "remdups (given_hids given)"
  let ?c = "call_cache (calls st)"
  assume none: "\<forall>h\<in>set (given_hids given). \<not> exists_call st h"
  then have nc: "\<forall>h\<in>set (given_hids given). h \<notin> set (call_hids ?c)"
    and np: "\<forall>h\<in>set (given_hids given). rows_of (call_storage (calls st)) h = []"
    by (auto simp: exists_call_def CachedCallStorage_exists_def InMemCallStorage_exists_def
          SQLiteCallStorage_exists_def split: if_splits)
  from nc have "\<forall>h\<in>set ?hs. h \<in> set (call_hids ?c) \<longrightarrow> h \<in> set (levels0 (df ?c))"
    by simp
  from drop_cache_loop_closed [OF distinct_remdups this]
  have l: "drop_cache_loop ?hs ?c =
     (Inr (), \<lparr>df = filter (\<lambda>r. \<not> (call_history_id r \<in> set ?hs \<and>
                                    call_history_id r \<in> set (call_hids ?c))) (df ?c),
               call_hids = filter (\<lambda>h. h \<notin> set ?hs) (call_hids ?c)\<rparr>)" .
  have f1: "filter (\<lambda>r. \<not> (call_history_id r \<in> set ?hs \<and>
                            call_history_id r \<in> set (call_hids ?c))) (df ?c) = df ?c"
    using nc by (auto simp: filter_id_conv)
  have f2: "filter (\<lambda>h. h \<notin> set ?hs) (call_hids ?c) = call_hids ?c"
    using nc by (auto simp: filter_id_conv)
  have f3: "filter (\<lambda>r. call_history_id r \<notin> set ?hs) (call_storage (calls st)) =
            call_storage (calls st)"
    using np by (auto simp: filter_id_conv rows_of_def filter_empty_conv)
  from l f1 f2 have "drop_cache_loop ?hs ?c = (Inr (), ?c)" by simp
  with f3 show "drop_calls fuel st given False = (Inr (), st)"
    by (simp add: drop_calls_def Let_def drop_persistent_loop_filter)
qed

lemma drop_calls_closed_form_example:
  "drop_calls 0
     (Storage_init\<lparr>calls :=
        \<lparr>call_storage =
           [\<lparr>call_history_id = ''h2'', slot_name = ''x'', direction = In, call_content_id = ''c2'',
             ref_content_id = ''rc'', ref_history_id = ''rh'', row_op = ''g''\<rparr>],
         call_cache =
           \<lparr>df = [\<lparr>call_history_id = ''h1'', slot_name = ''x'', direction = In,
                   call_content_id = ''c1'', ref_content_id = ''rc'', ref_history_id = ''rh'',
                   row_op = ''g''\<rparr>],
            call_hids = [''h1'']\<rparr>,
         dirty_hids = [''h1'']\<rparr>\<rparr>)
     (Hids [''nope'']) False =
   (Inr (),
    Storage_init\<lparr>calls :=
        \<lparr>call_storage =
           [\<lparr>call_history_id = ''h2'', slot_name = ''x'', direction = In, call_content_id = ''c2'',
             ref_content_id = ''rc'', ref_history_id = ''rh'', row_op = ''g''\<rparr>],
         call_cache =
           \<lparr>df = [\<lparr>call_history_id = ''h1'', slot_name = ''x'', direction = In,
                   call_content_id = ''c1'', ref_content_id = ''rc'', ref_history_id = ''rh'',
                   row_op = ''g''\<rparr>],
            call_hids = [''h1'']\<rparr>,
         dirty_hids = [''h1'']\<rparr>\<rparr>) \<and>
   drop_calls 0
     (Storage_init\<lparr>calls :=
        \<lparr>call_storage =
           [\<lparr>call_history_id = ''h2'', slot_name = ''x'', direction = In, call_content_id = ''c2'',
             ref_content_id = ''rc'', ref_history_id = ''rh'', row_op = ''g''\<rparr>],
         call_cache =
           \<lparr>df = [\<lparr>call_history_id = ''h1'', slot_name = ''x'', direction = In,
                   call_content_id = ''c1'', ref_content_id = ''rc'', ref_history_id = ''rh'',
                   row_op = ''g''\<rparr>],
            call_hids = [''h1'']\<rparr>,
         dirty_hids = [''h1'']\<rparr>\<rparr>)
     (Hids [''h1'', ''nope'', ''h2'']) False =
   (Inr (),
    Storage_init\<lparr>calls :=
        \<lparr>call_storage = [], call_cache = \<lparr>df = [], call_hids = []\<rparr>,
         dirty_hids = [''h1'']\<rparr>\<rparr>)"
proof -
  let ?r1 = "\<lparr>call_history_id = ''h1'', slot_name = ''x'', direction = In,
              call_content_id = ''c1'', ref_content_id = ''rc'', ref_history_id = ''rh'',
              row_op = ''g''\<rparr>"
  let ?r2 = "\<lparr>call_history_id = ''h2'', slot_name = ''x'', direction = In,
              call_content_id = ''c2'', ref_content_id = ''rc'', ref_history_id = ''rh'',
              row_op = ''g''\<rparr>"
  let ?st = "Storage_init\<lparr>calls :=
        \<lparr>call_storage = [?r2], call_cache = \<lparr>df = [?r1], call_hids = [''h1'']\<rparr>,
         dirty_hids = [''h1'']\<rparr>\<rparr>"
  have a: "\<forall>h\<in>set (given_hids (Hids [''nope''])). \<not> exists_call ?st h"
    by (simp add: exists_call_def CachedCallStorage_exists_def InMemCallStorage_exists_def
          SQLiteCallStorage_exists_def rows_of_def)
  have b: "\<forall>h\<in>set (given_hids (Hids [''h1'', ''nope'', ''h2''])).
             h \<in> set (call_hids (call_cache (calls ?st))) \<longrightarrow>
             h \<in> set (levels0 (df (call_cache (calls ?st))))"
    by (simp add: levels0_def)
  from drop_calls_closed_form [of "Hids [''nope'']" ?st 0] a
  have 1: "drop_calls 0 ?st (Hids [''nope'']) False = (Inr (), ?st)" by blast
  from drop_calls_closed_form [of "Hids [''h1'', ''nope'', ''h2'']" ?st 0] b
  have 2: "drop_calls 0 ?st (Hids [''h1'', ''nope'', ''h2'']) False =
        (Inr (),
         ?st\<lparr>calls := (calls ?st)
              \<lparr>call_cache :=
                 \<lparr>df = filter (\<lambda>r. \<not> (call_history_id r \<in> set (given_hids (Hids [''h1'', ''nope'', ''h2''])) \<and>
                                       call_history_id r \<in> set (call_hids (call_cache (calls ?st)))))
                         (df (call_cache (calls ?st))),
                  call_hids = filter (\<lambda>h. h \<notin> set (given_hids (Hids [''h1'', ''nope'', ''h2''])))
                                (call_hids (call_cache (calls ?st)))\<rparr>,
               call_storage := filter (\<lambda>r. call_history_id r \<notin> set (given_hids (Hids [''h1'', ''nope'', ''h2''])))
                                 (call_storage (calls ?st))\<rparr>\<rparr>)"
    by blast
  from 2 have 3: "drop_calls 0 ?st (Hids [''h1'', ''nope'', ''h2'']) False =
     (Inr (), Storage_init\<lparr>calls :=
        \<lparr>call_storage = [], call_cache = \<lparr>df = [], call_hids = []\<rparr>,
         dirty_hids = [''h1'']\<rparr>\<rparr>)"
    by simp
  from 1 3 show ?thesis by blast
qed

text \<open>
  C9. A call that exists need not index a row: \<open>InMemCallStorage.save\<close> adds the history
  id of every call to \<open>call_hids\<close>, from which \<open>exists\<close> answers, and writes one row per
  input and output; \<open>drop\<close> tests \<open>df.index.levels[0]\<close>. For the saved call of
  \<open>sample_tick\<close>, which has neither, \<open>drop_calls\<close> on its history id finds that the call
  exists, raises \<open>ValueError\<close> ("Call with history_id ... does not exist") and drops
  nothing: the call exists afterwards as before.
\<close>

theorem drop_calls_rowless_call_raises:
  "call_hid tick_call = ''h(tick)'' \<and>
   exists_call recorded_tick ''h(tick)'' \<and>
   raised (drop_calls 0 recorded_tick (Hids [''h(tick)'']) False) = Some ValueError_no_such_call \<and>
   exists_call (snd (drop_calls 0 recorded_tick (Hids [''h(tick)'']) False)) ''h(tick)''"
  by code_simp

text \<open>
  The engine reaches such a state by itself: a call of \<open>sample_tick\<close> with \<open>save_calls\<close>
  saves a call without rows, which \<open>drop_calls\<close> then fails to drop.
\<close>

lemma call_of_tick_is_saved_without_rows:
  "returned (Storage_call 2 sample_model sample_bind versioned_storage sample_tick [] [] True)
     = Some (Tuple []) \<and>
   call_hids (call_cache (calls (snd
     (Storage_call 2 sample_model sample_bind versioned_storage sample_tick [] [] True))))
     = [''h(tick)''] \<and>
   df (call_cache (calls (snd
     (Storage_call 2 sample_model sample_bind versioned_storage sample_tick [] [] True)))) = [] \<and>
   raised (drop_calls 0
     (snd (Storage_call 2 sample_model sample_bind versioned_storage sample_tick [] [] True))
     (Hids [''h(tick)'']) False) = Some ValueError_no_such_call"
  by code_simp

subsection \<open>Saving and loading refs\<close>

lemma load_ref_list_returns_shape_children:
  assumes "CachedDictStorage_get (shapes st) h = (Inr (ListRef c h' m es), sh)"
    and "load_ref (Suc n) st h lazy = (Inr r, st')"
  shows "r = ListRef c h' True es"
  using assms
  by (auto simp: attached_list_def split: prod.splits sum.splits)

lemma load_ref_dict_returns_loaded_children:
  assumes "CachedDictStorage_get (shapes st) h = (Inr (DictRef c h' m kvs), sh)"
    and "load_ref (Suc n) st h lazy = (Inr r, st')"
  shows "\<exists>loaded st1. load_ref_items n (st\<lparr>shapes := sh\<rparr>)
                         (map (\<lambda>kv. (fst kv, hid (snd kv))) kvs) lazy = (Inr loaded, st1) \<and>
                       r = DictRef c h' True loaded"
  using assms
  by (auto simp: attached_dict_def split: prod.splits sum.splits)

text \<open>
  C2, at a list with one atom in memory, saved into an empty storage and loaded with
  \<open>lazy = False\<close>. The list comes back with the child of its stored shape, a detached
  atom without a value, while loading that child by its history id gives the atom in
  memory with its value. The dict branch, on the dict with the same child, returns the
  loaded child.
\<close>

theorem load_ref_list_keeps_detached_children:
  "fst (load_ref 2
          (save_ref (ListRef ''cL'' ''hL'' True [AtomRef ''c1'' ''h1'' True (VInt 1)]) Storage_init)
          ''hL'' False)
     = Inr (ListRef ''cL'' ''hL'' True [AtomRef ''c1'' ''h1'' False VNone]) \<and>
   fst (load_refs 1
          (save_ref (ListRef ''cL'' ''hL'' True [AtomRef ''c1'' ''h1'' True (VInt 1)]) Storage_init)
          [''h1''] False)
     = Inr [AtomRef ''c1'' ''h1'' True (VInt 1)] \<and>
   fst (load_ref 2
          (save_ref (DictRef ''cD'' ''hD'' True [(''k'', AtomRef ''c1'' ''h1'' True (VInt 1))])
             Storage_init)
          ''hD'' False)
     = Inr (DictRef ''cD'' ''hD'' True [(''k'', AtomRef ''c1'' ''h1'' True (VInt 1))])"
  by code_simp

section \<open>Properties of the call engine\<close>

subsection \<open>Looking up a recorded call\<close>

text \<open>
  \<open>lookup_call\<close> never returns a call and leaves the storage as it is: it raises, or
  reports "not found" (which it does only when a versioner declines). In a storage
  without versioning it raises \<open>TypeError\<close>, and so \<open>call_internal\<close> returns no call
  there, whatever the fuel.
\<close>

lemma lookup_call_never_finds:
  "lookup_call fuel st o1 ins pre v = (r, st') \<Longrightarrow>
   st' = st \<and> (r = Inl TypeError \<or> r = Inl AssertionError \<or> r = Inr None)"
  by (auto simp: lookup_call_def InMemCallStorage_exists_kw_def Let_def
        split: if_splits option.splits sum.splits)

lemma lookup_call_unversioned:
  "\<not> versioned st \<Longrightarrow> lookup_call fuel st o1 ins pre v = (Inl TypeError, st)"
  by (simp add: lookup_call_def InMemCallStorage_exists_kw_def)

lemma construct_with_state:
  assumes "\<And>o1 i t b. isl (fst (ci st o1 i t b))"
    and "construct_with ci M st t v = (Inr x, st')"
  shows "st' = st"
proof -
  have *: "\<And>o1 i t b y s. ci st o1 i t b = (Inr y, s) \<Longrightarrow> False"
    using assms(1) by (metis fst_conv sum.disc(2))
  show ?thesis
    using assms(2)
    by (auto simp: construct_with_def split: pyobj.splits tp.splits sum.splits prod.splits
          list.splits dest: *)
qed

lemma construct_inputs_state:
  assumes "\<And>o1 i t b. isl (fst (ci st o1 i t b))"
    and "construct_inputs (construct_with ci M) st ins tps = (Inr x, st')"
  shows "st' = st"
  using assms(2)
proof (induction ins arbitrary: x)
  case Nil
  then show ?case by simp
next
  case (Cons kv ins)
  then show ?case
    by (auto split: option.splits prod.splits sum.splits
          dest: construct_with_state [of ci st, OF assms(1)])
qed

lemma call_internal_unversioned_raises:
  "\<not> versioned st \<Longrightarrow> isl (fst (call_internal fuel M st o1 ins tps ba))"
proof (induction fuel arbitrary: st o1 ins tps ba)
  case 0
  then show ?case by simp
next
  case (Suc fuel)
  have ci: "\<And>o2 i t b. isl (fst (call_internal fuel M st o2 i t b))"
    using Suc.IH [OF Suc.prems] .
  show ?case
  proof (cases "construct_inputs (construct_with (call_internal fuel M) M) st ins tps")
    case (Pair r st1)
    show ?thesis
    proof (cases r)
      case (Inl e)
      with Pair show ?thesis by (simp add: call_internal_step_def)
    next
      case (Inr x)
      with Pair construct_inputs_state [of "call_internal fuel M" st, OF ci] have "st1 = st" by blast
      with Pair Inr Suc.prems show ?thesis
        by (simp add: call_internal_step_def lookup_call_unversioned split: prod.splits)
    qed
  qed
qed

lemma construct_atom_unwrap:
  assumes "\<And>r. v \<noteq> VRef r"
  shows "construct fuel M st AtomType v = (Inr (wrap_atom M v None, []), st) \<and>
         Storage_unwrap n st (VRef (wrap_atom M v None)) = (Inr v, st)"
  using assms
  by (cases v)
     (auto simp: construct_def construct_with_def Storage_unwrap_def wrap_atom_def
        unwrap_atom_def)

lemma construct_container_unversioned_raises:
  assumes "\<not> versioned st" and "\<And>r. v \<noteq> VRef r" and "t \<noteq> AtomType"
  shows "isl (fst (construct fuel M st t v))"
proof -
  have "isl (fst (call_internal fuel M st o1 i ts b))" for o1 i ts b
    using call_internal_unversioned_raises [OF assms(1)] .
  then have *: "\<And>o1 i ts b y s. call_internal fuel M st o1 i ts b = (Inr y, s) \<Longrightarrow> False"
    by (metis fst_conv sum.disc(2))
  show ?thesis
    using assms(2,3)
    by (cases v; cases t)
       (auto simp: construct_def construct_with_def
          split: sum.splits prod.splits list.splits dest: *)
qed

text \<open>
  C1, at \<open>sample_inc\<close> on \<open>41\<close> in a storage without versioning that holds the record of
  a first call: the call exists under the history id that the second call computes,
  and yet \<open>lookup_call\<close>, and with it \<open>call_internal\<close>, raises \<open>TypeError\<close> instead of
  returning the stored call.
\<close>

theorem recorded_call_lookup_raises:
  "exists_call recorded_inc_41
     (get_call_history_id sample_inc [(''x'', wrap_atom sample_model (VInt 41) None)] None) \<and>
   raised (lookup_call 1 recorded_inc_41 sample_inc
             [(''x'', wrap_atom sample_model (VInt 41) None)]
             (get_pre_call_id sample_inc [(''x'', wrap_atom sample_model (VInt 41) None)]) None)
     = Some TypeError \<and>
   raised (call_internal 2 sample_model recorded_inc_41 sample_inc
             [(''x'', VInt 41)] [(''x'', AtomType)]
             (Some \<lparr>ba_args = [VInt 41], ba_kwargs = []\<rparr>))
     = Some TypeError"
  by code_simp

text \<open>
  C4, at \<open>sample_inc\<close> on a ref with the content id of the recorded input and another
  history id: the call ids by content agree, the call ids by history differ, the
  recorded call exists, and \<open>call_internal\<close> raises \<open>TypeError\<close>.
\<close>

theorem equal_content_lookup_raises:
  "get_call_content_id sample_inc [(''x'', AtomRef ''int3'' ''hy'' True (VInt 3))] None
     = call_cid (sample_call (AtomRef ''int3'' ''hx'' True (VInt 3)) (VInt 4)) \<and>
   get_call_history_id sample_inc [(''x'', AtomRef ''int3'' ''hy'' True (VInt 3))] None
     \<noteq> call_hid (sample_call (AtomRef ''int3'' ''hx'' True (VInt 3)) (VInt 4)) \<and>
   exists_call recorded_inc_3
     (call_hid (sample_call (AtomRef ''int3'' ''hx'' True (VInt 3)) (VInt 4))) \<and>
   raised (call_internal 2 sample_model recorded_inc_3 sample_inc
             [(''x'', VRef (AtomRef ''int3'' ''hy'' True (VInt 3)))] [(''x'', AtomType)]
             (Some \<lparr>ba_args = [VRef (AtomRef ''int3'' ''hy'' True (VInt 3))], ba_kwargs = []\<rparr>))
     = Some TypeError"
  by code_simp

text \<open>
  C3, in an empty storage without versioning: \<open>construct\<close> raises \<open>TypeError\<close> for a list
  and for a dict, so there is no ref to unwrap; for an atom it returns the atom in
  memory, which unwraps to the value.
\<close>

theorem construct_container_raises:
  "raised (construct 2 sample_model Storage_init (ListType AtomType) (VList [VInt 1, VInt 2]))
     = Some TypeError \<and>
   raised (construct 2 sample_model Storage_init (DictType AtomType AtomType)
             (VDict [(''a'', VInt 1)]))
     = Some TypeError \<and>
   map_option fst (returned (construct 2 sample_model Storage_init AtomType (VInt 7)))
     = Some (AtomRef ''int7'' ''new.int7'' True (VInt 7)) \<and>
   returned (Storage_unwrap 1 Storage_init (VRef (AtomRef ''int7'' ''new.int7'' True (VInt 7))))
     = Some (VInt 7)"
  by code_simp

subsection \<open>The guard against side effects\<close>

lemma changed_inputs_set:
  "changed_inputs before after = Inr changed \<Longrightarrow>
   set changed = {k. \<exists>c. (k, c) \<in> set before \<and> map_of after k \<noteq> Some c}"
proof (induction before arbitrary: changed)
  case Nil
  then show ?case by simp
next
  case (Cons kc rest)
  obtain k c where kc: "kc = (k, c)" by (cases kc)
  from Cons.prems kc obtain c' ks where a: "map_of after k = Some c'"
    and r: "changed_inputs rest after = Inr ks"
    and ch: "changed = (if c \<noteq> c' then k # ks else ks)"
    by (auto split: option.splits sum.splits)
  from Cons.IH [OF r]
  have ks: "set ks = {k. \<exists>c. (k, c) \<in> set rest \<and> map_of after k \<noteq> Some c}" .
  show ?case
    using a ch ks kc by auto
qed

lemma call_internal_executes:
  assumes "construct_inputs (construct_with (call_internal n M) M) st storage_inputs storage_tps
           = (Inr (wrapped, input_calls), st1)"
    and "\<not> (versioned st1 \<and> cached_versioner st1 = None)"
    and "lookup_call n st1 o1 wrapped (get_pre_call_id o1 wrapped)
           (if versioned st1 then cached_versioner st1 else None) = (Inr None, st2)"
  shows "call_internal (Suc n) M st o1 storage_inputs storage_tps bound_arguments =
      (case execute (construct_with (call_internal n M) M) n st2 o1 storage_inputs wrapped
              storage_tps bound_arguments of
         (Inl e, st3) \<Rightarrow> (Inl e, st3)
       | (Inr returns, st3) \<Rightarrow>
           finish (construct_with (call_internal n M) M) (destruct_with (call_internal n M) n M)
             M st3 o1 wrapped input_calls (get_pre_call_id o1 wrapped) returns)"
  using assms by (auto simp: call_internal_step_def Let_def)

lemma finish_returns_call:
  assumes "version_ids st pre_call_id = Inr (content_v, semantic_v)"
    and "parse_returns o1 returns = Inr (outputs_dict, output_tps)"
    and "wrap_outputs constr destr M st outputs_dict output_tps
           (get_output_history_ids o1 (get_call_history_id o1 wrapped semantic_v)
              (map fst outputs_dict)) = (Inr (wrapped_outputs, output_calls), st1)"
  shows "finish constr destr M st o1 wrapped input_calls pre_call_id returns =
     (Inr (wrapped_outputs,
           \<lparr>call_op = o1, call_cid = get_call_content_id o1 wrapped semantic_v,
            call_hid = get_call_history_id o1 wrapped semantic_v,
            inputs = wrapped, outputs = wrapped_outputs,
            semantic_version = semantic_v, content_version = content_v\<rparr>,
           input_calls @ output_calls), st1)"
  using assms by (simp add: finish_def Let_def)

text \<open>
  C7, as stated. That no input changed, or that the op allows side effects, does not
  make a call complete: \<open>sample_mistyped\<close> allows side effects and its call passes the
  guard, but the \<open>0\<close> it returns is not the list of its annotation and wrapping the
  output raises \<open>TypeError\<close>; and on a storage without versioning the call of
  \<open>sample_inc\<close>, which changes no input, raises \<open>TypeError\<close> in \<open>lookup_call\<close> before the
  function is executed.
\<close>

theorem guard_passed_call_raises:
  "raised (call_internal 3 sample_model versioned_storage sample_mistyped
             [(''x'', VInt 1)] [(''x'', AtomType)] (Some \<lparr>ba_args = [VInt 1], ba_kwargs = []\<rparr>))
     = Some TypeError \<and>
   raised (call_internal 3 sample_model Storage_init sample_inc
             [(''x'', VInt 5)] [(''x'', AtomType)] (Some \<lparr>ba_args = [VInt 5], ba_kwargs = []\<rparr>))
     = Some TypeError"
  by code_simp

text \<open>
  C7, amended. Take an op that is not structural and a call of \<open>call_internal\<close> that
  executes the function: the inputs are wrapped, the lookup finds no call, the inputs
  and arguments unwrap. If the op does not allow side effects, the unwrapped inputs as
  the call leaves them are wrapped again and \<open>changed\<close>, the names of the inputs whose
  content id is no longer the one before the call, is not empty, then \<open>call_internal\<close>
  raises \<open>SideEffectDetected changed\<close> and returns no call. If the op allows side
  effects (then nothing is wrapped again), or no content id changed, the guard raises
  nothing: the outcome of \<open>call_internal\<close> is that of the remaining steps on what the
  function returned, and when the version ids are found and the returned value is
  parsed and wrapped, \<open>call_internal\<close> returns the call with the wrapped inputs and
  outputs.
\<close>

theorem side_effect_guard:
  assumes "\<not> structural o1"
    and "construct_inputs (construct_with (call_internal n M) M) st storage_inputs storage_tps
           = (Inr (wrapped, input_calls), st1)"
    and "\<not> (versioned st1 \<and> cached_versioner st1 = None)"
    and "lookup_call n st1 o1 wrapped (get_pre_call_id o1 wrapped)
           (if versioned st1 then cached_versioner st1 else None) = (Inr None, st2)"
    and "unwrap_ref_items n st2 wrapped = (Inr raw_values, st3)"
    and "unwrap_list n st3 (ba_args ba) = (Inr args, st4)"
    and "unwrap_items n st4 (ba_kwargs ba) = (Inr kwargs, st5)"
  shows "(\<forall>after cs st6 changed.
            \<not> allow_side_effects o1 \<and>
            construct_inputs (construct_with (call_internal n M) M) st5
              (raw_values_after_call storage_inputs raw_values
                 (snd (f o1 args kwargs (shared_values storage_inputs raw_values))))
              storage_tps = (Inr (after, cs), st6) \<and>
            changed_inputs (cids_of wrapped) (cids_of after) = Inr changed \<and> changed \<noteq> [] \<longrightarrow>
            call_internal (Suc n) M st o1 storage_inputs storage_tps (Some ba)
              = (Inl (SideEffectDetected changed), st6) \<and>
            set changed = {k. \<exists>c. (k, c) \<in> set (cids_of wrapped) \<and>
                                  map_of (cids_of after) k \<noteq> Some c}) \<and>
         (\<forall>st'. (allow_side_effects o1 \<and> st' = st5 \<or>
                 \<not> allow_side_effects o1 \<and>
                 (\<exists>after cs.
                    construct_inputs (construct_with (call_internal n M) M) st5
                      (raw_values_after_call storage_inputs raw_values
                         (snd (f o1 args kwargs (shared_values storage_inputs raw_values))))
                      storage_tps = (Inr (after, cs), st') \<and>
                    changed_inputs (cids_of wrapped) (cids_of after) = Inr [])) \<longrightarrow>
            call_internal (Suc n) M st o1 storage_inputs storage_tps (Some ba)
              = finish (construct_with (call_internal n M) M) (destruct_with (call_internal n M) n M)
                  M st' o1 wrapped input_calls (get_pre_call_id o1 wrapped)
                  (fst (f o1 args kwargs (shared_values storage_inputs raw_values))) \<and>
            (\<forall>content_v semantic_v outputs_dict output_tps wrapped_outputs output_calls st7.
               version_ids st' (get_pre_call_id o1 wrapped) = Inr (content_v, semantic_v) \<and>
               parse_returns o1 (fst (f o1 args kwargs (shared_values storage_inputs raw_values)))
                 = Inr (outputs_dict, output_tps) \<and>
               wrap_outputs (construct_with (call_internal n M) M)
                 (destruct_with (call_internal n M) n M) M st' outputs_dict output_tps
                 (get_output_history_ids o1 (get_call_history_id o1 wrapped semantic_v)
                    (map fst outputs_dict)) = (Inr (wrapped_outputs, output_calls), st7) \<longrightarrow>
               call_internal (Suc n) M st o1 storage_inputs storage_tps (Some ba)
                 = (Inr (wrapped_outputs,
                         \<lparr>call_op = o1, call_cid = get_call_content_id o1 wrapped semantic_v,
                          call_hid = get_call_history_id o1 wrapped semantic_v,
                          inputs = wrapped, outputs = wrapped_outputs,
                          semantic_version = semantic_v, content_version = content_v\<rparr>,
                         input_calls @ output_calls), st7)))"
proof -
  let ?constr = "construct_with (call_internal n M) M"
  let ?destr = "destruct_with (call_internal n M) n M"
  let ?CI = "call_internal (Suc n) M st o1 storage_inputs storage_tps (Some ba)"
  let ?left = "raw_values_after_call storage_inputs raw_values (snd (f o1 args kwargs (shared_values storage_inputs raw_values)))"
  let ?returns = "fst (f o1 args kwargs (shared_values storage_inputs raw_values))"
  have step: "?CI =
      (case execute ?constr n st2 o1 storage_inputs wrapped storage_tps (Some ba) of
         (Inl e, st3) \<Rightarrow> (Inl e, st3)
       | (Inr returns, st3) \<Rightarrow>
           finish ?constr ?destr M st3 o1 wrapped input_calls (get_pre_call_id o1 wrapped) returns)"
    by (rule call_internal_executes [OF assms(2,3,4)])
  have e_allow: "allow_side_effects o1 \<Longrightarrow>
      execute ?constr n st2 o1 storage_inputs wrapped storage_tps (Some ba) = (Inr ?returns, st5)"
    using assms(1,5,6,7) by (simp add: execute_def Let_def)
  have e_raise: "execute ?constr n st2 o1 storage_inputs wrapped storage_tps (Some ba)
        = (Inl (ValueError_side_effects changed), st6)"
    if "\<not> allow_side_effects o1"
      and "construct_inputs ?constr st5 ?left storage_tps = (Inr (after, cs), st6)"
      and "changed_inputs (cids_of wrapped) (cids_of after) = Inr changed" and "changed \<noteq> []"
    for after cs st6 changed
    using assms(1,5,6,7) that by (simp add: execute_def Let_def)
  have e_same: "execute ?constr n st2 o1 storage_inputs wrapped storage_tps (Some ba)
        = (Inr ?returns, st6)"
    if "\<not> allow_side_effects o1"
      and "construct_inputs ?constr st5 ?left storage_tps = (Inr (after, cs), st6)"
      and "changed_inputs (cids_of wrapped) (cids_of after) = Inr []"
    for after cs st6
    using assms(1,5,6,7) that by (simp add: execute_def Let_def)
  have raise: "?CI = (Inl (SideEffectDetected changed), st6) \<and>
        set changed = {k. \<exists>c. (k, c) \<in> set (cids_of wrapped) \<and> map_of (cids_of after) k \<noteq> Some c}"
    if "\<not> allow_side_effects o1"
      and "construct_inputs ?constr st5 ?left storage_tps = (Inr (after, cs), st6)"
      and "changed_inputs (cids_of wrapped) (cids_of after) = Inr changed" and "changed \<noteq> []"
    for after cs st6 changed
    using step e_raise [OF that] changed_inputs_set [OF that(3)]
    by (simp add: SideEffectDetected_def)
  have pass: "?CI = finish ?constr ?destr M st' o1 wrapped input_calls (get_pre_call_id o1 wrapped)
                 ?returns"
    if "allow_side_effects o1 \<and> st' = st5 \<or>
        \<not> allow_side_effects o1 \<and>
        (\<exists>after cs. construct_inputs ?constr st5 ?left storage_tps = (Inr (after, cs), st') \<and>
                    changed_inputs (cids_of wrapped) (cids_of after) = Inr [])"
    for st'
    using that
  proof
    assume "allow_side_effects o1 \<and> st' = st5"
    then show ?thesis using step e_allow by simp
  next
    assume a: "\<not> allow_side_effects o1 \<and>
        (\<exists>after cs. construct_inputs ?constr st5 ?left storage_tps = (Inr (after, cs), st') \<and>
                    changed_inputs (cids_of wrapped) (cids_of after) = Inr [])"
    then obtain after cs where
      "construct_inputs ?constr st5 ?left storage_tps = (Inr (after, cs), st')"
      "changed_inputs (cids_of wrapped) (cids_of after) = Inr []"
      by blast
    with a e_same [of after cs st'] step show ?thesis by simp
  qed
  show ?thesis
  proof (intro conjI allI impI)
    fix after cs st6 changed
    assume "\<not> allow_side_effects o1 \<and>
            construct_inputs ?constr st5 ?left storage_tps = (Inr (after, cs), st6) \<and>
            changed_inputs (cids_of wrapped) (cids_of after) = Inr changed \<and> changed \<noteq> []"
    then have r: "?CI = (Inl (SideEffectDetected changed), st6) \<and>
        set changed = {k. \<exists>c. (k, c) \<in> set (cids_of wrapped) \<and> map_of (cids_of after) k \<noteq> Some c}"
      using raise by blast
    from r show "?CI = (Inl (SideEffectDetected changed), st6)" by simp
    from r show "set changed = {k. \<exists>c. (k, c) \<in> set (cids_of wrapped) \<and>
                                  map_of (cids_of after) k \<noteq> Some c}" by simp
  next
    fix st'
    assume g: "allow_side_effects o1 \<and> st' = st5 \<or>
                 \<not> allow_side_effects o1 \<and>
                 (\<exists>after cs.
                    construct_inputs ?constr st5 ?left storage_tps = (Inr (after, cs), st') \<and>
                    changed_inputs (cids_of wrapped) (cids_of after) = Inr [])"
    from pass [OF g]
    show "?CI = finish ?constr ?destr M st' o1 wrapped input_calls (get_pre_call_id o1 wrapped)
                 ?returns" .
  next
    fix st' content_v semantic_v outputs_dict output_tps wrapped_outputs output_calls st7
    assume g: "allow_side_effects o1 \<and> st' = st5 \<or>
                 \<not> allow_side_effects o1 \<and>
                 (\<exists>after cs.
                    construct_inputs ?constr st5 ?left storage_tps = (Inr (after, cs), st') \<and>
                    changed_inputs (cids_of wrapped) (cids_of after) = Inr [])"
      and s: "version_ids st' (get_pre_call_id o1 wrapped) = Inr (content_v, semantic_v) \<and>
               parse_returns o1 ?returns = Inr (outputs_dict, output_tps) \<and>
               wrap_outputs ?constr ?destr M st' outputs_dict output_tps
                 (get_output_history_ids o1 (get_call_history_id o1 wrapped semantic_v)
                    (map fst outputs_dict)) = (Inr (wrapped_outputs, output_calls), st7)"
    from s have s1: "version_ids st' (get_pre_call_id o1 wrapped) = Inr (content_v, semantic_v)"
      by blast
    from s have s2: "parse_returns o1 ?returns = Inr (outputs_dict, output_tps)"
      by blast
    from s have s3: "wrap_outputs ?constr ?destr M st' outputs_dict output_tps
                 (get_output_history_ids o1 (get_call_history_id o1 wrapped semantic_v)
                    (map fst outputs_dict)) = (Inr (wrapped_outputs, output_calls), st7)"
      by blast
    have "finish ?constr ?destr M st' o1 wrapped input_calls (get_pre_call_id o1 wrapped)
                 ?returns =
       (Inr (wrapped_outputs,
                         \<lparr>call_op = o1, call_cid = get_call_content_id o1 wrapped semantic_v,
                          call_hid = get_call_history_id o1 wrapped semantic_v,
                          inputs = wrapped, outputs = wrapped_outputs,
                          semantic_version = semantic_v, content_version = content_v\<rparr>,
                         input_calls @ output_calls), st7)"
      by (rule finish_returns_call [OF s1 s2 s3])
    with pass [OF g]
    show "?CI = (Inr (wrapped_outputs,
                         \<lparr>call_op = o1, call_cid = get_call_content_id o1 wrapped semantic_v,
                          call_hid = get_call_history_id o1 wrapped semantic_v,
                          inputs = wrapped, outputs = wrapped_outputs,
                          semantic_version = semantic_v, content_version = content_v\<rparr>,
                         input_calls @ output_calls), st7)"
      by simp
  qed
qed

lemma versioned_storage_simps:
  "versioned versioned_storage"
  "cached_versioner versioned_storage = Some declining_versioner"
  by (simp_all add: versioned_storage_def Storage_enter_def Storage_init_def)

lemma lookup_call_declined:
  "lookup_call n versioned_storage o1 ins pre (Some declining_versioner)
     = (Inr None, versioned_storage)"
  by (simp add: lookup_call_def versioned_storage_simps declining_versioner_def)

theorem side_effect_guard_witness:
  "raised (call_internal 2 sample_model versioned_storage (sample_bad False)
             [(''x'', VRef (AtomRef ''list1'' ''hx'' True (VList [VInt 1])))] [(''x'', AtomType)]
             (Some \<lparr>ba_args = [VRef (AtomRef ''list1'' ''hx'' True (VList [VInt 1]))],
                    ba_kwargs = []\<rparr>))
     = Some (SideEffectDetected [''x'']) \<and>
   map_option (\<lambda>r. (inputs (fst (snd r)), outputs (fst (snd r))))
     (returned (call_internal 2 sample_model versioned_storage (sample_bad True)
             [(''x'', VRef (AtomRef ''list1'' ''hx'' True (VList [VInt 1])))] [(''x'', AtomType)]
             (Some \<lparr>ba_args = [VRef (AtomRef ''list1'' ''hx'' True (VList [VInt 1]))],
                    ba_kwargs = []\<rparr>)))
     = Some ([(''x'', AtomRef ''list1'' ''hx'' True (VList [VInt 1]))],
             [(''output_0'', AtomRef ''int0'' ''h(bad,x=hx).output_0'' True (VInt 0))]) \<and>
   map_option (\<lambda>r. (inputs (fst (snd r)), outputs (fst (snd r))))
     (returned (call_internal 2 sample_model versioned_storage (sample_bad False)
             [(''x'', VList [VInt 1])] [(''x'', AtomType)]
             (Some \<lparr>ba_args = [VList [VInt 1]], ba_kwargs = []\<rparr>)))
     = Some ([(''x'', AtomRef ''list1'' ''new.list1'' True (VList [VInt 1]))],
             [(''output_0'', AtomRef ''int0'' ''h(bad,x=new.list1).output_0'' True (VInt 0))])"
proof -
  let ?M = "sample_model"
  let ?S = "versioned_storage"
  let ?constr = "construct_with (call_internal 1 ?M) ?M"
  let ?destr = "destruct_with (call_internal 1 ?M) 1 ?M"
  let ?r = "AtomRef ''list1'' ''hx'' True (VList [VInt 1])"
  let ?ba = "\<lparr>ba_args = [VRef ?r], ba_kwargs = []\<rparr>"
  let ?w = "[(''x'', ?r)]"
  let ?p = "wrap_atom ?M (VList [VInt 1]) None"
  let ?bp = "\<lparr>ba_args = [VList [VInt 1]], ba_kwargs = []\<rparr>"
  let ?wp = "[(''x'', ?p)]"
  have ops: "\<not> structural (sample_bad b)" "allow_side_effects (sample_bad b) = b"
    "parse_returns (sample_bad b) (VInt 0) = Inr ([(''output_0'', VInt 0)], [(''output_0'', AtomType)])"
    "f (sample_bad b) [VList [VInt 1]] [] [(''x'', VList [VInt 1])]
       = (VInt 0, [(''x'', VList [VInt 1, VInt 0])])"
    "get_output_history_ids (sample_bad b) h [''output_0''] = [(''output_0'', h @ ''.output_0'')]"
    for b h
    by (simp_all add: sample_bad_def sample_op_def)
  have vi: "version_ids ?S pre = Inr (Some ''cv'', Some ''sv'')" for pre
    by (simp add: version_ids_def versioned_storage_simps declining_versioner_def)
  have h3: "\<not> (versioned ?S \<and> cached_versioner ?S = None)"
    by (simp add: versioned_storage_simps)
  have h4: "lookup_call 1 ?S o1 ins pre (if versioned ?S then cached_versioner ?S else None)
              = (Inr None, ?S)" for o1 ins pre
    by (simp add: versioned_storage_simps lookup_call_declined)
  have h7: "unwrap_items 1 ?S (ba_kwargs ?ba) = (Inr [], ?S)"
    "unwrap_items 1 ?S (ba_kwargs ?bp) = (Inr [], ?S)"
    by simp_all

  txt \<open>the list is passed as an atom ref\<close>
  have r2: "construct_inputs ?constr ?S [(''x'', VRef ?r)] [(''x'', AtomType)] = (Inr (?w, []), ?S)"
    by (simp add: construct_with_def)
  have r5: "unwrap_ref_items 1 ?S ?w = (Inr [(''x'', VList [VInt 1])], ?S)"
    by (simp add: unwrap_atom_def)
  have r6: "unwrap_list 1 ?S (ba_args ?ba) = (Inr [VList [VInt 1]], ?S)"
    by (simp add: unwrap_atom_def)
  have rs: "shared_values [(''x'', VRef ?r)] [(''x'', VList [VInt 1])] = [(''x'', VList [VInt 1])]"
    by (simp add: shared_values_def)
  have rl: "raw_values_after_call [(''x'', VRef ?r)] [(''x'', VList [VInt 1])]
              (snd (f (sample_bad b) [VList [VInt 1]] []
                      (shared_values [(''x'', VRef ?r)] [(''x'', VList [VInt 1])])))
            = [(''x'', VList [VInt 1, VInt 0])]" for b
    by (simp add: rs ops raw_values_after_call_def)
  have r8: "construct_inputs ?constr ?S
              (raw_values_after_call [(''x'', VRef ?r)] [(''x'', VList [VInt 1])]
                 (snd (f (sample_bad b) [VList [VInt 1]] []
                         (shared_values [(''x'', VRef ?r)] [(''x'', VList [VInt 1])]))))
              [(''x'', AtomType)]
            = (Inr ([(''x'', wrap_atom ?M (VList [VInt 1, VInt 0]) None)], []), ?S)" for b
    by (simp add: rl construct_with_def)
  have r9: "changed_inputs (cids_of ?w) (cids_of [(''x'', wrap_atom ?M (VList [VInt 1, VInt 0]) None)])
              = Inr [''x'']"
    by code_simp
  note g1 = side_effect_guard [OF ops(1) r2 h3 h4 r5 r6 h7(1), of False]
  have na: "\<not> allow_side_effects (sample_bad False)"
    using ops(2) [of False] by simp
  have ne: "[''x''] \<noteq> ([] :: string list)" by simp
  from g1 [THEN conjunct1, rule_format, OF conjI [OF na conjI [OF r8 [of False] conjI [OF r9 ne]]]]
  have "call_internal (Suc 1) ?M ?S (sample_bad False) [(''x'', VRef ?r)] [(''x'', AtomType)] (Some ?ba)
          = (Inl (SideEffectDetected [''x'']), ?S)"
    by (rule conjunct1)
  then have 1: "raised (call_internal 2 ?M ?S (sample_bad False) [(''x'', VRef ?r)]
                  [(''x'', AtomType)] (Some ?ba)) = Some (SideEffectDetected [''x''])"
    by (simp add: raised_def numeral_2_eq_2)

  txt \<open>the same call of an op that allows side effects\<close>
  have al: "allow_side_effects (sample_bad True)"
    using ops(2) [of True] by simp
  have pr: "parse_returns (sample_bad b) (fst (f (sample_bad b) [VList [VInt 1]] [] shared))
            = Inr ([(''output_0'', VInt 0)], [(''output_0'', AtomType)])" for b shared
    by (simp add: sample_bad_def sample_op_def)
  have wr: "wrap_outputs ?constr ?destr ?M ?S [(''output_0'', VInt 0)] [(''output_0'', AtomType)]
              (get_output_history_ids (sample_bad True)
                 (get_call_history_id (sample_bad True) ?w (Some ''sv''))
                 (map fst [(''output_0'', VInt 0)]))
            = (Inr ([(''output_0'', wrap_atom ?M (VInt 0) (Some ''h(bad,x=hx).output_0''))], []), ?S)"
    by (simp add: ops wrap_output_def sample_bad_def sample_op_def)
  note g2 = side_effect_guard [OF ops(1) r2 h3 h4 r5 r6 h7(1), of True]
  from g2 [THEN conjunct2, rule_format, OF disjI1 [OF conjI [OF al refl]],
           THEN conjunct2, rule_format, OF conjI [OF vi conjI [OF pr wr]]]
  have "map_option (\<lambda>r. (inputs (fst (snd r)), outputs (fst (snd r))))
     (returned (call_internal 2 ?M ?S (sample_bad True) [(''x'', VRef ?r)] [(''x'', AtomType)]
                  (Some ?ba)))
     = Some (?w, [(''output_0'', wrap_atom ?M (VInt 0) (Some ''h(bad,x=hx).output_0''))])"
    by (simp add: returned_def numeral_2_eq_2)
  moreover have "wrap_atom ?M (VInt 0) (Some ''h(bad,x=hx).output_0'')
                   = AtomRef ''int0'' ''h(bad,x=hx).output_0'' True (VInt 0)"
    by code_simp
  ultimately have 2: "map_option (\<lambda>r. (inputs (fst (snd r)), outputs (fst (snd r))))
     (returned (call_internal 2 ?M ?S (sample_bad True) [(''x'', VRef ?r)] [(''x'', AtomType)]
                  (Some ?ba)))
     = Some (?w, [(''output_0'', AtomRef ''int0'' ''h(bad,x=hx).output_0'' True (VInt 0))])"
    by simp

  txt \<open>the list is passed as a plain value\<close>
  have pw: "?p = AtomRef ''list1'' ''new.list1'' True (VList [VInt 1])"
    by code_simp
  have p2: "construct_inputs ?constr ?S [(''x'', VList [VInt 1])] [(''x'', AtomType)]
              = (Inr (?wp, []), ?S)"
    by (simp add: construct_with_def)
  have p5: "unwrap_ref_items 1 ?S ?wp = (Inr [(''x'', VList [VInt 1])], ?S)"
    by (simp add: wrap_atom_def unwrap_atom_def)
  have p6: "unwrap_list 1 ?S (ba_args ?bp) = (Inr [VList [VInt 1]], ?S)"
    by simp
  have pl: "raw_values_after_call [(''x'', VList [VInt 1])] [(''x'', VList [VInt 1])] left
            = [(''x'', VList [VInt 1])]" for left
    by (simp add: raw_values_after_call_def)
  have p8: "construct_inputs ?constr ?S
              (raw_values_after_call [(''x'', VList [VInt 1])] [(''x'', VList [VInt 1])]
                 (snd (f (sample_bad False) [VList [VInt 1]] []
                         (shared_values [(''x'', VList [VInt 1])] [(''x'', VList [VInt 1])]))))
              [(''x'', AtomType)] = (Inr (?wp, []), ?S)"
    by (simp add: pl construct_with_def)
  have p9: "changed_inputs (cids_of ?wp) (cids_of ?wp) = Inr []"
    by (simp add: cids_of_def)
  have ex: "\<exists>after cs.
              construct_inputs ?constr ?S
                (raw_values_after_call [(''x'', VList [VInt 1])] [(''x'', VList [VInt 1])]
                   (snd (f (sample_bad False) [VList [VInt 1]] []
                           (shared_values [(''x'', VList [VInt 1])] [(''x'', VList [VInt 1])]))))
                [(''x'', AtomType)] = (Inr (after, cs), ?S) \<and>
              changed_inputs (cids_of ?wp) (cids_of after) = Inr []"
    by (intro exI conjI) (rule p8, rule p9)
  have wp: "wrap_outputs ?constr ?destr ?M ?S [(''output_0'', VInt 0)] [(''output_0'', AtomType)]
              (get_output_history_ids (sample_bad False)
                 (get_call_history_id (sample_bad False) ?wp (Some ''sv''))
                 (map fst [(''output_0'', VInt 0)]))
            = (Inr ([(''output_0'',
                      wrap_atom ?M (VInt 0) (Some ''h(bad,x=new.list1).output_0''))], []), ?S)"
    by (simp add: pw ops wrap_output_def sample_bad_def sample_op_def)
  note g3 = side_effect_guard [OF ops(1) p2 h3 h4 p5 p6 h7(2), of False]
  from g3 [THEN conjunct2, rule_format, OF disjI2 [OF conjI [OF na ex]],
           THEN conjunct2, rule_format, OF conjI [OF vi conjI [OF pr wp]]]
  have "map_option (\<lambda>r. (inputs (fst (snd r)), outputs (fst (snd r))))
     (returned (call_internal 2 ?M ?S (sample_bad False) [(''x'', VList [VInt 1])]
                  [(''x'', AtomType)] (Some ?bp)))
     = Some (?wp, [(''output_0'', wrap_atom ?M (VInt 0) (Some ''h(bad,x=new.list1).output_0''))])"
    by (simp add: returned_def numeral_2_eq_2)
  moreover have "wrap_atom ?M (VInt 0) (Some ''h(bad,x=new.list1).output_0'')
                   = AtomRef ''int0'' ''h(bad,x=new.list1).output_0'' True (VInt 0)"
    by code_simp
  ultimately have 3: "map_option (\<lambda>r. (inputs (fst (snd r)), outputs (fst (snd r))))
     (returned (call_internal 2 ?M ?S (sample_bad False) [(''x'', VList [VInt 1])]
                  [(''x'', AtomType)] (Some ?bp)))
     = Some ([(''x'', AtomRef ''list1'' ''new.list1'' True (VList [VInt 1]))],
             [(''output_0'', AtomRef ''int0'' ''h(bad,x=new.list1).output_0'' True (VInt 0))])"
    by (simp add: pw)
  from 1 2 3 show ?thesis by (intro conjI)
qed

subsection \<open>What \<open>Storage.call\<close> returns\<close>

text \<open>
  C10. When the arguments bind and parse and \<open>call_internal\<close> returns a call,
  \<open>Storage.call\<close> returns the one output ref itself if the call has exactly one output,
  and the tuple of the ordered output refs if it has more than one;
  \<open>get_ordered_outputs\<close> is taken to list every output of the call once.
\<close>

theorem call_returns_single_or_tuple:
  assumes "bind (signature o1) args kwargs = Inr arguments"
    and "parse_args fuel st (signature o1) arguments = (Inr (ba, storage_inputs, storage_tps), st1)"
    and "call_internal fuel M st1 o1 storage_inputs storage_tps (Some ba)
           = (Inr (res, main_call, cs), st2)"
    and "length (get_ordered_outputs o1 (outputs main_call)) = length (outputs main_call)"
  shows "(length (outputs main_call) = 1 \<longrightarrow>
            returned (Storage_call fuel M bind st o1 args kwargs save_calls)
              = Some (Single (hd (get_ordered_outputs o1 (outputs main_call))))) \<and>
         (1 < length (outputs main_call) \<longrightarrow>
            returned (Storage_call fuel M bind st o1 args kwargs save_calls)
              = Some (Tuple (get_ordered_outputs o1 (outputs main_call))))"
proof -
  have "length (get_ordered_outputs o1 (outputs main_call)) = 1 \<Longrightarrow>
        get_ordered_outputs o1 (outputs main_call) ! 0 = hd (get_ordered_outputs o1 (outputs main_call))"
    by (cases "get_ordered_outputs o1 (outputs main_call)") auto
  then show ?thesis
    using assms by (auto simp: Storage_call_def returned_def Let_def)
qed

theorem call_returns_single_or_tuple_witness:
  "returned (Storage_call 2 sample_model sample_bind versioned_storage sample_inc [VInt 5] [] False)
     = Some (Single (AtomRef ''int6'' ''h(inc,x=new.int5).output_0'' True (VInt 6))) \<and>
   returned (Storage_call 2 sample_model sample_bind versioned_storage sample_pair [VInt 5] [] False)
     = Some (Tuple [AtomRef ''int5'' ''h(pair,x=new.int5).output_0'' True (VInt 5),
                    AtomRef ''int5'' ''h(pair,x=new.int5).output_1'' True (VInt 5)])"
proof -
  let ?M = "sample_model"
  let ?S = "versioned_storage"
  let ?ba = "\<lparr>ba_args = [VInt 5], ba_kwargs = []\<rparr>"
  have sg: "signature (sample_op nm s a fn) =
      [\<lparr>param_name = ''x'', param_kind = POSITIONAL_OR_KEYWORD,
        param_default = Empty, param_annotation = AtomType\<rparr>]" for nm s a fn
    by (simp add: sample_op_def)
  have b: "sample_bind (signature (sample_op nm s a fn)) [VInt 5] [] = Inr [(''x'', VInt 5)]"
    for nm s a fn
    by (simp add: sample_bind_def sg)
  have p: "parse_args 2 ?S (signature (sample_op nm s a fn)) [(''x'', VInt 5)]
             = (Inr (?ba, [(''x'', VInt 5)], [(''x'', AtomType)]), ?S)" for nm s a fn
    by (simp add: parse_args_def parse_arg_def sg var_positional_def var_keyword_def
          default_values_def dict_update_all_def)
  have go: "get_ordered_outputs (sample_op nm s a fn) = map snd" for nm s a fn
    by (simp add: sample_op_def)
  have c1: "case call_internal 2 ?M ?S sample_inc [(''x'', VInt 5)] [(''x'', AtomType)] (Some ?ba) of
              (Inr (res, mc, cs), st2) \<Rightarrow>
                 map snd (outputs mc) = [AtomRef ''int6'' ''h(inc,x=new.int5).output_0'' True (VInt 6)]
            | (Inl e, st2) \<Rightarrow> False"
    by code_simp
  then obtain res mc cs st2 where
    r1: "call_internal 2 ?M ?S sample_inc [(''x'', VInt 5)] [(''x'', AtomType)] (Some ?ba)
           = (Inr (res, mc, cs), st2)"
    and o1: "map snd (outputs mc) = [AtomRef ''int6'' ''h(inc,x=new.int5).output_0'' True (VInt 6)]"
    by (auto split: prod.splits sum.splits)
  from o1 have l1: "length (outputs mc) = 1"
    by (metis length_map length_Cons list.size(3) One_nat_def)
  have g1: "length (get_ordered_outputs sample_inc (outputs mc)) = length (outputs mc)"
    by (simp add: sample_inc_def go)
  from call_returns_single_or_tuple [of sample_bind sample_inc "[VInt 5]" "[]" "[(''x'', VInt 5)]"
      2 ?S ?ba "[(''x'', VInt 5)]" "[(''x'', AtomType)]" ?S ?M res mc cs st2 False]
    b [of "''inc''"] p [of "''inc''"] r1 g1 l1
  have "returned (Storage_call 2 ?M sample_bind ?S sample_inc [VInt 5] [] False)
          = Some (Single (hd (get_ordered_outputs sample_inc (outputs mc))))"
    by (simp add: sample_inc_def)
  with o1 have 1: "returned (Storage_call 2 ?M sample_bind ?S sample_inc [VInt 5] [] False)
          = Some (Single (AtomRef ''int6'' ''h(inc,x=new.int5).output_0'' True (VInt 6)))"
    by (simp add: sample_inc_def go)
  have c2: "case call_internal 2 ?M ?S sample_pair [(''x'', VInt 5)] [(''x'', AtomType)] (Some ?ba) of
              (Inr (res, mc, cs), st2) \<Rightarrow>
                 map snd (outputs mc) =
                   [AtomRef ''int5'' ''h(pair,x=new.int5).output_0'' True (VInt 5),
                    AtomRef ''int5'' ''h(pair,x=new.int5).output_1'' True (VInt 5)]
            | (Inl e, st2) \<Rightarrow> False"
    by code_simp
  then obtain res' mc' cs' st2' where
    r2: "call_internal 2 ?M ?S sample_pair [(''x'', VInt 5)] [(''x'', AtomType)] (Some ?ba)
           = (Inr (res', mc', cs'), st2')"
    and o2: "map snd (outputs mc') =
                   [AtomRef ''int5'' ''h(pair,x=new.int5).output_0'' True (VInt 5),
                    AtomRef ''int5'' ''h(pair,x=new.int5).output_1'' True (VInt 5)]"
    by (auto split: prod.splits sum.splits)
  from o2 have "length (map snd (outputs mc')) = 2" by simp
  then have l2: "1 < length (outputs mc')" by simp
  have g2: "length (get_ordered_outputs sample_pair (outputs mc')) = length (outputs mc')"
    by (simp add: sample_pair_def go)
  from call_returns_single_or_tuple [of sample_bind sample_pair "[VInt 5]" "[]" "[(''x'', VInt 5)]"
      2 ?S ?ba "[(''x'', VInt 5)]" "[(''x'', AtomType)]" ?S ?M res' mc' cs' st2' False]
    b [of "''pair''"] p [of "''pair''"] r2 g2 l2
  have "returned (Storage_call 2 ?M sample_bind ?S sample_pair [VInt 5] [] False)
          = Some (Tuple (get_ordered_outputs sample_pair (outputs mc')))"
    by (simp add: sample_pair_def)
  with o2 have 2: "returned (Storage_call 2 ?M sample_bind ?S sample_pair [VInt 5] [] False)
          = Some (Tuple [AtomRef ''int5'' ''h(pair,x=new.int5).output_0'' True (VInt 5),
                    AtomRef ''int5'' ''h(pair,x=new.int5).output_1'' True (VInt 5)])"
    by (simp add: sample_pair_def go)
  from 1 2 show ?thesis by blast
qed

end
